theory Spec2Isabelle
  imports Complex_Main
begin

text \<open>
  The annotation and drawing engine of the notebook editor
  (\<^verbatim>\<open>src/components/Editor.tsx\<close>, with the types of the page and its highlights):
  the mapping of pointer events to surface coordinates, the tool state with its cache of
  recent colours, the strokes painted on the canvas, the history of snapshots with undo
  and redo, and the highlights with their comments.

  The component keeps its state in hooks and refs; here it is one record, and every
  handler is a function from the state in which it is called to the state it leaves. A
  handler bound to an element is the one of the latest rendering, so it reads the state
  the previous handler left. The callback of a decoder is an event of its own: it runs
  after whatever came between, and what it captured when it was created (a handler of
  that rendering, with the \<open>historyStep\<close> of that rendering) is kept with the pending
  decode. The browser is part of the model as far as the handlers look at it: the canvas
  with its context, the selection, the console, the clock (an argument of the handlers
  that read it).
\<close>

section \<open>JavaScript numbers\<close>

text \<open>
  The editor computes with JavaScript numbers. A finite number is modelled by the real it
  denotes (no rounding, no overflow, no negative zero); the three values that are not
  finite are kept apart, because a division by a zero width produces them and the
  arithmetic of the source then goes on with them.
\<close>

datatype jsnum = Fin real | PInf | NInf | NaN

fun js_neg :: "jsnum \<Rightarrow> jsnum" where
  "js_neg (Fin a) = Fin (- a)"
| "js_neg PInf = NInf"
| "js_neg NInf = PInf"
| "js_neg NaN = NaN"

fun js_add :: "jsnum \<Rightarrow> jsnum \<Rightarrow> jsnum" where
  "js_add (Fin a) (Fin b) = Fin (a + b)"
| "js_add NaN _ = NaN"
| "js_add _ NaN = NaN"
| "js_add PInf NInf = NaN"
| "js_add NInf PInf = NaN"
| "js_add PInf _ = PInf"
| "js_add _ PInf = PInf"
| "js_add NInf _ = NInf"
| "js_add _ NInf = NInf"

definition js_sub :: "jsnum \<Rightarrow> jsnum \<Rightarrow> jsnum" where
  "js_sub a b = js_add a (js_neg b)"

definition inf_of_sign :: "bool \<Rightarrow> jsnum" where
  "inf_of_sign positive = (if positive then PInf else NInf)"

fun js_mul :: "jsnum \<Rightarrow> jsnum \<Rightarrow> jsnum" where
  "js_mul (Fin a) (Fin b) = Fin (a * b)"
| "js_mul NaN _ = NaN"
| "js_mul _ NaN = NaN"
| "js_mul PInf (Fin b) = (if b = 0 then NaN else inf_of_sign (0 < b))"
| "js_mul NInf (Fin b) = (if b = 0 then NaN else inf_of_sign (b < 0))"
| "js_mul (Fin a) PInf = (if a = 0 then NaN else inf_of_sign (0 < a))"
| "js_mul (Fin a) NInf = (if a = 0 then NaN else inf_of_sign (a < 0))"
| "js_mul PInf PInf = PInf"
| "js_mul NInf NInf = PInf"
| "js_mul PInf NInf = NInf"
| "js_mul NInf PInf = NInf"

fun js_div :: "jsnum \<Rightarrow> jsnum \<Rightarrow> jsnum" where
  "js_div (Fin a) (Fin b) =
     (if b = 0 then (if a = 0 then NaN else inf_of_sign (0 < a)) else Fin (a / b))"
| "js_div NaN _ = NaN"
| "js_div _ NaN = NaN"
| "js_div (Fin a) PInf = Fin 0"
| "js_div (Fin a) NInf = Fin 0"
| "js_div PInf (Fin b) = inf_of_sign (0 \<le> b)"
| "js_div NInf (Fin b) = inf_of_sign (b < 0)"
| "js_div PInf PInf = NaN"
| "js_div PInf NInf = NaN"
| "js_div NInf PInf = NaN"
| "js_div NInf NInf = NaN"

fun js_sqrt :: "jsnum \<Rightarrow> jsnum" where
  "js_sqrt (Fin a) = (if a < 0 then NaN else Fin (sqrt a))"
| "js_sqrt PInf = PInf"
| "js_sqrt NInf = NaN"
| "js_sqrt NaN = NaN"

section \<open>The data of the editor\<close>

datatype ToolType = Text | Fine_liner | Pen | Marker | Highlighter | Eraser | Shape

datatype ShapeType = Rect | Circle | Triangle | Line

definition PRESET_COLORS :: "string list" where
  "PRESET_COLORS =
     [''#000000'', ''#135bec'', ''#ef4444'', ''#22c55e'', ''#a855f7'', ''#f59e0b'', ''#ec4899'']"

subsection \<open>Annotations\<close>

record comment =
  comment_id :: string
  comment_text :: string
  author :: string
  createdAt :: nat

record highlight =
  highlight_id :: string
  highlight_color :: string
  comments :: "comment list"

subsection \<open>The raster surface\<close>

text \<open>
  The pixels of the canvas are kept as the history of the paint calls that produced them:
  \<open>Blank\<close> is the fully transparent surface that \<open>clearRect\<close> over the whole canvas
  leaves, \<open>Stroked\<close> is one \<open>stroke()\<close> of a path with the context's style over what was
  there (its arguments: the surface below, \<open>strokeStyle\<close>, \<open>lineWidth\<close>,
  \<open>globalAlpha\<close>, the composite operation and the path), \<open>Composite\<close> is a
  \<open>drawImage\<close> of a decoded picture at the origin over a surface, \<open>Placed\<close> is a
  \<open>drawImage\<close> of a picture from a file (its data, the corner, the width and the
  height) over a surface. Two surfaces with the same history have the same pixels; the
  converse is not claimed. \<open>lineCap\<close> and
  \<open>lineJoin\<close> are set to \<open>round\<close> once and never changed, so they are left out.
\<close>

datatype gco = SourceOver | Multiply | DestinationOut

datatype pathcmd =
    MoveTo real real
  | LineTo real real
  | RectPath real real real real
  | ArcPath real real real real real
  | ClosePath

datatype bitmap =
    Blank
  | Stroked bitmap string real real gco "pathcmd list"
  | Composite bitmap bitmap real gco
  | Placed bitmap string real real real real

text \<open>
  \<open>toDataURL\<close> encodes the pixels; the encoding is taken to be lossless, so a data URL
  is the picture it encodes.
\<close>

datatype dataurl = PNG bitmap

fun decode :: "dataurl \<Rightarrow> bitmap" where
  "decode (PNG b) = b"

record DOMRect =
  rect_left :: real
  rect_top :: real
  rect_width :: real
  rect_height :: real

record canvas =
  canvas_width :: nat
  canvas_height :: nat
  boundingClientRect :: DOMRect
  bitmap :: bitmap

record context2d =
  path :: "pathcmd list"
  strokeStyle :: string
  fillStyle :: string
  lineWidth :: real
  globalAlpha :: real
  globalCompositeOperation :: gco

subsection \<open>Pointer events, selections and errors\<close>

record touch =
  touch_clientX :: real
  touch_clientY :: real

datatype pointer_event =
    MouseEvent real real
  | TouchEvent "touch list"

text \<open>
  A selection of the page, as far as \<open>handleHighlight\<close> looks at it. Its first range
  either can be wrapped by \<open>surroundContents\<close> or partially selects a node that is not a
  text node (it crosses block boundaries), in which case the DOM raises before it changes
  anything.
\<close>

record selection =
  rangeCount :: nat
  isCollapsed :: bool
  partially_selects_non_text :: bool

record span =
  span_backgroundColor :: string
  span_highlight_id :: string

datatype error = TypeError | IndexSizeError

subsection \<open>The state of one editor\<close>

record editor =
  tool :: ToolType
  selectedShape :: ShapeType
  color :: string
  recentColors :: "string list"
  isDrawing :: bool
  highlights :: "string \<rightharpoonup> highlight"
  activeHighlightId :: "string option"
  newComment :: string
  canvasRef :: "canvas option"
  contextRef :: "context2d option"
  history :: "dataurl list"
  historyStep :: int
  startPos :: "(jsnum \<times> jsnum) option"
  snapshot :: "bitmap option"
  isShiftPressed :: bool
  isDarkMode :: bool
  selection :: "selection option"
  marks :: "span list"
  console :: "string list"
  execLog :: "(string \<times> string) list"
  pendingRestores :: "dataurl list"
  pendingInsertions :: "(string \<times> int) list"

text \<open>
  \<open>pendingRestores\<close> are the snapshots whose decoding \<open>restoreCanvasState\<close> has
  started and whose \<open>onload\<close> has not run yet; \<open>pendingInsertions\<close> are the pictures
  chosen from a file and not yet decoded, each with the \<open>historyStep\<close> of the rendering
  in which the file was chosen.
\<close>

text \<open>
  A handler either returns or raises; when it raises, the state holds the updates it made
  before.
\<close>

datatype outcome = Done editor | Threw error editor

fun state_of :: "outcome \<Rightarrow> editor" where
  "state_of (Done s) = s"
| "state_of (Threw e s) = s"

section \<open>Coordinate mapping\<close>

text \<open>
  \<open>getCoordinates\<close> (lines 332 to 359). Reading the first point of an empty touch list
  gives \<open>undefined\<close>, and reading its \<open>clientX\<close> raises.
\<close>

definition getCoordinates :: "editor \<Rightarrow> pointer_event \<Rightarrow> error + (jsnum \<times> jsnum)" where
  "getCoordinates s e =
     (case canvasRef s of
        None \<Rightarrow> Inr (Fin 0, Fin 0)
      | Some cv \<Rightarrow>
          (let r = boundingClientRect cv in
           case (case e of
                   TouchEvent ts \<Rightarrow>
                     (case ts of
                        [] \<Rightarrow> Inl TypeError
                      | t # _ \<Rightarrow> Inr (touch_clientX t, touch_clientY t))
                 | MouseEvent x y \<Rightarrow> Inr (x, y)) of
             Inl err \<Rightarrow> Inl err
           | Inr (clientX, clientY) \<Rightarrow>
               (let scaleX = js_div (Fin (real (canvas_width cv))) (Fin (rect_width r));
                    scaleY = js_div (Fin (real (canvas_height cv))) (Fin (rect_height r))
                in Inr (js_mul (js_sub (Fin clientX) (Fin (rect_left r))) scaleX,
                        js_mul (js_sub (Fin clientY) (Fin (rect_top r))) scaleY))))"

section \<open>Canvas primitives\<close>

text \<open>
  The path methods of a 2D context return without doing anything when an argument is not
  finite; \<open>arc\<close> raises on a negative radius.
\<close>

fun ctx_moveTo :: "pathcmd list \<Rightarrow> jsnum \<Rightarrow> jsnum \<Rightarrow> pathcmd list" where
  "ctx_moveTo p (Fin x) (Fin y) = p @ [MoveTo x y]"
| "ctx_moveTo p _ _ = p"

fun ctx_lineTo :: "pathcmd list \<Rightarrow> jsnum \<Rightarrow> jsnum \<Rightarrow> pathcmd list" where
  "ctx_lineTo p (Fin x) (Fin y) = p @ [LineTo x y]"
| "ctx_lineTo p _ _ = p"

fun ctx_rect :: "pathcmd list \<Rightarrow> jsnum \<Rightarrow> jsnum \<Rightarrow> jsnum \<Rightarrow> jsnum \<Rightarrow> pathcmd list" where
  "ctx_rect p (Fin x) (Fin y) (Fin w) (Fin h) = p @ [RectPath x y w h]"
| "ctx_rect p _ _ _ _ = p"

fun ctx_arc ::
  "pathcmd list \<Rightarrow> jsnum \<Rightarrow> jsnum \<Rightarrow> jsnum \<Rightarrow> jsnum \<Rightarrow> jsnum \<Rightarrow> error + pathcmd list" where
  "ctx_arc p (Fin x) (Fin y) (Fin r) (Fin a0) (Fin a1) =
     (if r < 0 then Inl IndexSizeError else Inr (p @ [ArcPath x y r a0 a1]))"
| "ctx_arc p _ _ _ _ _ = Inr p"

definition ctx_closePath :: "pathcmd list \<Rightarrow> pathcmd list" where
  "ctx_closePath p = p @ [ClosePath]"

definition ctx_stroke :: "context2d \<Rightarrow> bitmap \<Rightarrow> bitmap" where
  "ctx_stroke ctx b =
     Stroked b (strokeStyle ctx) (lineWidth ctx) (globalAlpha ctx)
       (globalCompositeOperation ctx) (path ctx)"

text \<open>
  \<open>drawImage(img, 0, 0)\<close> of a picture as large as the canvas: over the blank surface,
  with \<open>source-over\<close> and full opacity, the result is the picture.
\<close>

definition ctx_drawImage :: "context2d \<Rightarrow> bitmap \<Rightarrow> bitmap \<Rightarrow> bitmap" where
  "ctx_drawImage ctx img b =
     (if b = Blank \<and> globalCompositeOperation ctx = SourceOver \<and> globalAlpha ctx = 1
      then img
      else Composite b img (globalAlpha ctx) (globalCompositeOperation ctx))"

definition toDataURL :: "canvas \<Rightarrow> dataurl" where
  "toDataURL cv = PNG (bitmap cv)"

definition on_bitmap :: "(bitmap \<Rightarrow> bitmap) \<Rightarrow> canvas option \<Rightarrow> canvas option" where
  "on_bitmap f c = map_option (\<lambda>cv. cv\<lparr>bitmap := f (bitmap cv)\<rparr>) c"

section \<open>JavaScript arrays and strings\<close>

definition js_index :: "'a list \<Rightarrow> int \<Rightarrow> 'a option" where
  "js_index xs i = (if 0 \<le> i \<and> i < int (length xs) then Some (xs ! nat i) else None)"

definition js_slice0 :: "'a list \<Rightarrow> int \<Rightarrow> 'a list" where
  "js_slice0 xs e =
     (let n = int (length xs);
          k = (if e < 0 then max (n + e) 0 else min e n)
      in take (nat k) xs)"

definition digit_char :: "nat \<Rightarrow> char" where
  "digit_char d = char_of (48 + d)"

function string_of_nat :: "nat \<Rightarrow> string" where
  "string_of_nat n =
     (if n < 10 then [digit_char n] else string_of_nat (n div 10) @ [digit_char (n mod 10)])"
  by pat_completeness auto
termination
  by (relation "measure id") auto

text \<open>
  Characters are eight bits wide here; the white space that \<open>trim\<close> removes is
  ECMAScript's, as far as it lies in that range.
\<close>

definition js_whitespace :: "char \<Rightarrow> bool" where
  "js_whitespace c = (of_char c \<in> {9, 10, 11, 12, 13, 32, 160 :: nat})"

definition js_trim :: "string \<Rightarrow> string" where
  "js_trim str = rev (dropWhile js_whitespace (rev (dropWhile js_whitespace str)))"

section \<open>History of the raster surface\<close>

text \<open>
  \<open>restoreCanvasState\<close> (lines 50 to 63) clears the surface at once and starts the
  decoding of the snapshot; the picture is painted by \<open>img.onload\<close>, here
  \<open>restore_onload\<close>, when the decoder calls back. Nothing orders or cancels the pending
  decodes: any of them may call back next, and each paints over what the surface holds
  then. An index outside the history gives \<open>undefined\<close>, which never decodes. The
  callback paints with the context it captured; \<open>contextRef\<close> is set once, at
  mounting, so that is the context of the state in which the callback runs.
\<close>

definition restoreCanvasState :: "editor \<Rightarrow> dataurl option \<Rightarrow> editor" where
  "restoreCanvasState s dataUrl =
     (case (contextRef s, canvasRef s) of
        (Some ctx, Some cv) \<Rightarrow>
          (let s1 = s\<lparr>canvasRef := Some (cv\<lparr>bitmap := Blank\<rparr>)\<rparr> in
           case dataUrl of
             None \<Rightarrow> s1
           | Some d \<Rightarrow> s1\<lparr>pendingRestores := pendingRestores s1 @ [d]\<rparr>)
      | _ \<Rightarrow> s)"

definition remove_nth :: "nat \<Rightarrow> 'a list \<Rightarrow> 'a list" where
  "remove_nth k xs = take k xs @ drop (Suc k) xs"

definition restore_onload :: "editor \<Rightarrow> nat \<Rightarrow> editor" where
  "restore_onload s k =
     (if k < length (pendingRestores s) then
        (let d = pendingRestores s ! k;
             s1 = s\<lparr>pendingRestores := remove_nth k (pendingRestores s)\<rparr>
         in case contextRef s1 of
              None \<Rightarrow> s1
            | Some ctx \<Rightarrow>
                (let ctx' = ctx\<lparr>globalCompositeOperation := SourceOver, globalAlpha := 1\<rparr>
                 in s1\<lparr>contextRef := Some ctx',
                       canvasRef := on_bitmap (ctx_drawImage ctx' (decode d)) (canvasRef s1)\<rparr>))
      else s)"

text \<open>
  \<open>execCommand\<close> hands a command to the text surface, which is not modelled further;
  \<open>saveCanvasToHistory\<close>, \<open>handleUndo\<close> and \<open>handleRedo\<close> are lines 184 to 224.
  A data URL is never the empty string, so the test \<open>if (data)\<close> fails only without a
  canvas. \<open>saveCanvasToHistory\<close> cuts the history at the \<open>historyStep\<close> of the rendering
  that created the handler (line 188), its first argument here, and increments the
  pointer of the state in which it runs (line 191).
\<close>

definition execCommand :: "editor \<Rightarrow> string \<Rightarrow> string \<Rightarrow> editor" where
  "execCommand s command val = s\<lparr>execLog := execLog s @ [(command, val)]\<rparr>"

definition saveCanvasToHistory :: "int \<Rightarrow> editor \<Rightarrow> editor" where
  "saveCanvasToHistory closureStep s =
     (case canvasRef s of
        None \<Rightarrow> s
      | Some cv \<Rightarrow>
          s\<lparr>history := js_slice0 (history s) (closureStep + 1) @ [toDataURL cv],
            historyStep := historyStep s + 1\<rparr>)"

definition handleUndo :: "editor \<Rightarrow> editor" where
  "handleUndo s =
     (if tool s = Text then execCommand s ''undo'' []
      else if historyStep s > 0 then
        (let newStep = historyStep s - 1
         in restoreCanvasState (s\<lparr>historyStep := newStep\<rparr>) (js_index (history s) newStep))
      else if historyStep s = 0 then
        (case (contextRef s, canvasRef s) of
           (Some ctx, Some cv) \<Rightarrow>
             s\<lparr>historyStep := - 1, canvasRef := Some (cv\<lparr>bitmap := Blank\<rparr>)\<rparr>
         | _ \<Rightarrow> s\<lparr>historyStep := - 1\<rparr>)
      else s)"

definition handleRedo :: "editor \<Rightarrow> editor" where
  "handleRedo s =
     (if tool s = Text then execCommand s ''redo'' []
      else if historyStep s < int (length (history s)) - 1 then
        (let newStep = historyStep s + 1
         in restoreCanvasState (s\<lparr>historyStep := newStep\<rparr>) (js_index (history s) newStep))
      else s)"

text \<open>
  \<open>handleImageUpload\<close> (lines 374 to 393) starts the reading of the chosen file; the
  picture is painted and the surface pushed by \<open>img.onload\<close>, here
  \<open>insertion_onload\<close>, once the file is read and decoded. That callback calls the
  \<open>saveCanvasToHistory\<close> of the rendering in which the file was chosen. Without a
  file nothing happens, and a file that does not decode never calls back.
\<close>

definition handleImageUpload :: "editor \<Rightarrow> string option \<Rightarrow> editor" where
  "handleImageUpload s file =
     (case file of
        None \<Rightarrow> s
      | Some src \<Rightarrow> s\<lparr>pendingInsertions := pendingInsertions s @ [(src, historyStep s)]\<rparr>)"

definition insertion_onload :: "editor \<Rightarrow> nat \<Rightarrow> editor" where
  "insertion_onload s k =
     (if k < length (pendingInsertions s) then
        (case pendingInsertions s ! k of
           (src, closureStep) \<Rightarrow>
             (let s1 = s\<lparr>pendingInsertions := remove_nth k (pendingInsertions s)\<rparr>
              in case contextRef s1 of
                   None \<Rightarrow> s1
                 | Some ctx \<Rightarrow>
                     (let ctx' = ctx\<lparr>globalCompositeOperation := SourceOver, globalAlpha := 1\<rparr>
                      in saveCanvasToHistory closureStep
                           (s1\<lparr>contextRef := Some ctx',
                               canvasRef :=
                                 on_bitmap (\<lambda>b. Placed b src 50 50 200 200) (canvasRef s1)\<rparr>))))
      else s)"

section \<open>Tool state\<close>

text \<open>\<open>handleSetColor\<close> (lines 226 to 234).\<close>

definition handleSetColor :: "editor \<Rightarrow> string \<Rightarrow> editor" where
  "handleSetColor s newColor =
     (let s' = s\<lparr>color := newColor\<rparr>
      in if newColor \<notin> set PRESET_COLORS
         then s'\<lparr>recentColors := take 5 (newColor # filter (\<lambda>c. c \<noteq> newColor) (recentColors s'))\<rparr>
         else s')"

section \<open>Strokes\<close>

text \<open>
  \<open>startDrawing\<close>, \<open>draw\<close> and \<open>stopDrawing\<close> (lines 236 to 328).
  \<open>getImageData\<close> raises on a canvas without width or height. \<open>stopDrawing\<close> is
  bound to the canvas, so the \<open>saveCanvasToHistory\<close> it calls is the one of the latest
  rendering.
\<close>

definition startDrawing :: "editor \<Rightarrow> pointer_event \<Rightarrow> outcome" where
  "startDrawing s e =
     (if tool s = Text then Done s
      else
        (let s1 = s\<lparr>isDrawing := True\<rparr> in
         case getCoordinates s1 e of
           Inl err \<Rightarrow> Threw err s1
         | Inr (offsetX, offsetY) \<Rightarrow>
             (let s2 = s1\<lparr>startPos := Some (offsetX, offsetY)\<rparr> in
              case (contextRef s2, canvasRef s2) of
                (Some ctx, Some cv) \<Rightarrow>
                  if canvas_width cv = 0 \<or> canvas_height cv = 0 then Threw IndexSizeError s2
                  else
                    (let s3 = s2\<lparr>snapshot := Some (bitmap cv)\<rparr> in
                     if tool s \<noteq> Shape \<or> selectedShape s = Line
                     then Done (s3\<lparr>contextRef :=
                                      Some (ctx\<lparr>path := ctx_moveTo [] offsetX offsetY\<rparr>)\<rparr>)
                     else Done s3)
              | _ \<Rightarrow> Done s2)))"

text \<open>The two \<open>switch\<close> statements of \<open>draw\<close> that choose the pen.\<close>

fun preview_pen :: "ToolType \<Rightarrow> context2d \<Rightarrow> context2d" where
  "preview_pen Fine_liner ctx = ctx\<lparr>lineWidth := 1\<rparr>"
| "preview_pen Pen ctx = ctx\<lparr>lineWidth := 3\<rparr>"
| "preview_pen Marker ctx = ctx\<lparr>lineWidth := 8\<rparr>"
| "preview_pen Highlighter ctx =
     ctx\<lparr>globalAlpha := 35 / 100, lineWidth := 24, globalCompositeOperation := Multiply\<rparr>"
| "preview_pen _ ctx = ctx\<lparr>lineWidth := 2\<rparr>"

fun freehand_pen :: "ToolType \<Rightarrow> context2d \<Rightarrow> context2d" where
  "freehand_pen Fine_liner ctx = ctx\<lparr>lineWidth := 1\<rparr>"
| "freehand_pen Pen ctx = ctx\<lparr>lineWidth := 3\<rparr>"
| "freehand_pen Marker ctx = ctx\<lparr>lineWidth := 8\<rparr>"
| "freehand_pen Highlighter ctx =
     ctx\<lparr>globalAlpha := 35 / 100, lineWidth := 24, globalCompositeOperation := Multiply\<rparr>"
| "freehand_pen Eraser ctx = ctx\<lparr>lineWidth := 40, globalCompositeOperation := DestinationOut\<rparr>"
| "freehand_pen _ ctx = ctx\<lparr>lineWidth := 2\<rparr>"

text \<open>
  The path of the preview, built after \<open>beginPath\<close> from the start of the stroke
  \<open>(startX, startY)\<close> and the sample \<open>(offsetX, offsetY)\<close>.
\<close>

definition preview_path ::
  "ToolType \<Rightarrow> ShapeType \<Rightarrow> jsnum \<Rightarrow> jsnum \<Rightarrow> jsnum \<Rightarrow> jsnum \<Rightarrow> error + pathcmd list" where
  "preview_path t sh startX startY offsetX offsetY =
     (let width = js_sub offsetX startX;
          height = js_sub offsetY startY
      in if t = Shape then
           (case sh of
              Rect \<Rightarrow> Inr (ctx_rect [] startX startY width height)
            | Circle \<Rightarrow>
                (let radius = js_sqrt (js_add (js_mul width width) (js_mul height height))
                 in ctx_arc [] startX startY radius (Fin 0) (js_mul (Fin 2) (Fin pi)))
            | Triangle \<Rightarrow>
                Inr (ctx_closePath
                      (ctx_lineTo
                        (ctx_lineTo
                          (ctx_moveTo [] (js_add startX (js_div width (Fin 2))) startY)
                          startX (js_add startY height))
                        (js_add startX width) (js_add startY height)))
            | Line \<Rightarrow> Inr (ctx_lineTo (ctx_moveTo [] startX startY) offsetX offsetY))
         else Inr (ctx_lineTo (ctx_moveTo [] startX startY) offsetX offsetY))"

definition draw :: "editor \<Rightarrow> pointer_event \<Rightarrow> outcome" where
  "draw s e =
     (case contextRef s of
        None \<Rightarrow> Done s
      | Some ctx0 \<Rightarrow>
     (case startPos s of
        None \<Rightarrow> Done s
      | Some (startX, startY) \<Rightarrow>
     if \<not> isDrawing s \<or> tool s = Text then Done s
     else
     (case getCoordinates s e of
        Inl err \<Rightarrow> Threw err s
      | Inr (offsetX, offsetY) \<Rightarrow>
        (let ctx1 = ctx0\<lparr>strokeStyle :=
                           (if tool s = Eraser
                            then (if isDarkMode s then ''#1c222e'' else ''white'')
                            else color s),
                         fillStyle := color s\<rparr>
         in
         if tool s = Shape \<or> (tool s \<noteq> Eraser \<and> isShiftPressed s) then
           (let restored = (case snapshot s of
                              None \<Rightarrow> canvasRef s
                            | Some snap \<Rightarrow> on_bitmap (\<lambda>_. snap) (canvasRef s));
                ctx2 = ctx1\<lparr>globalAlpha := 1, globalCompositeOperation := SourceOver\<rparr>;
                ctx3 = (if tool s = Shape then ctx2\<lparr>lineWidth := 2\<rparr>
                        else preview_pen (tool s) ctx2)
            in case preview_path (tool s) (selectedShape s) startX startY offsetX offsetY of
                 Inl err \<Rightarrow>
                   Threw err (s\<lparr>contextRef := Some (ctx3\<lparr>path := []\<rparr>), canvasRef := restored\<rparr>)
               | Inr p \<Rightarrow>
                   (let ctx4 = ctx3\<lparr>path := p\<rparr>
                    in Done (s\<lparr>contextRef := Some ctx4,
                                canvasRef := on_bitmap (ctx_stroke ctx4) restored\<rparr>)))
         else
           (let ctx2 = ctx1\<lparr>globalAlpha := 1, globalCompositeOperation := SourceOver\<rparr>;
                ctx3 = freehand_pen (tool s) ctx2;
                ctx4 = ctx3\<lparr>path := ctx_lineTo (path ctx3) offsetX offsetY\<rparr>
            in Done (s\<lparr>contextRef := Some ctx4,
                        canvasRef := on_bitmap (ctx_stroke ctx4) (canvasRef s)\<rparr>))))))"

definition stopDrawing :: "editor \<Rightarrow> editor" where
  "stopDrawing s =
     (if isDrawing s then
        (let s1 = s\<lparr>contextRef :=
                      map_option (\<lambda>ctx. ctx\<lparr>path := ctx_closePath (path ctx)\<rparr>) (contextRef s)\<rparr>;
             s2 = s1\<lparr>isDrawing := False, startPos := None, snapshot := None\<rparr>
         in saveCanvasToHistory (historyStep s) s2)
      else s)"

section \<open>Annotations\<close>

text \<open>
  \<open>handleHighlight\<close> (lines 128 to 152), \<open>handleEditorClick\<close> (lines 154 to 162) and
  \<open>addComment\<close> (lines 164 to 182). The text of the page is kept as the list of its
  inline markers; the id of a highlight is \<open>hl_\<close> followed by the time of its creation.
\<close>

definition removeAllRanges :: "selection \<Rightarrow> selection" where
  "removeAllRanges sel =
     sel\<lparr>rangeCount := 0, isCollapsed := True, partially_selects_non_text := False\<rparr>"

definition handleHighlight :: "editor \<Rightarrow> string \<Rightarrow> nat \<Rightarrow> editor" where
  "handleHighlight s hColor now =
     (case selection s of
        None \<Rightarrow> s
      | Some sel \<Rightarrow>
          if rangeCount sel = 0 \<or> isCollapsed sel then s
          else
            (let ident = ''hl_'' @ string_of_nat now;
                 sp = \<lparr>span_backgroundColor = hColor, span_highlight_id = ident\<rparr>;
                 s1 = (if partially_selects_non_text sel
                       then s\<lparr>console := console s @
                                 [''Highlight failed: Selection spans multiple blocks'']\<rparr>
                       else s\<lparr>marks := marks s @ [sp],
                              highlights := (highlights s)(ident \<mapsto>
                                \<lparr>highlight_id = ident, highlight_color = hColor, comments = []\<rparr>),
                              activeHighlightId := Some ident\<rparr>)
             in s1\<lparr>selection := Some (removeAllRanges sel)\<rparr>))"

definition handleEditorClick :: "editor \<Rightarrow> string option \<Rightarrow> editor" where
  "handleEditorClick s hlId =
     (case hlId of
        None \<Rightarrow> s\<lparr>activeHighlightId := None\<rparr>
      | Some i \<Rightarrow> if i \<noteq> [] then s\<lparr>activeHighlightId := Some i\<rparr>
                  else s\<lparr>activeHighlightId := None\<rparr>)"

text \<open>
  \<open>addComment\<close> reads the clock twice: for the id and for \<open>createdAt\<close>. Reading
  \<open>comments\<close> of a highlight that is not in the map raises.
\<close>

definition addComment :: "editor \<Rightarrow> nat \<Rightarrow> nat \<Rightarrow> error + editor" where
  "addComment s now_id now_created =
     (case activeHighlightId s of
        None \<Rightarrow> Inr s
      | Some aid \<Rightarrow>
          if aid = [] \<or> js_trim (newComment s) = [] then Inr s
          else
            (let c = \<lparr>comment_id = ''c_'' @ string_of_nat now_id,
                      comment_text = newComment s,
                      author = ''Me'',
                      createdAt = now_created\<rparr>
             in case highlights s aid of
                  None \<Rightarrow> Inl TypeError
                | Some h \<Rightarrow>
                    Inr (s\<lparr>highlights := (highlights s)(aid \<mapsto> h\<lparr>comments := comments h @ [c]\<rparr>),
                           newComment := []\<rparr>)))"

section \<open>Sessions\<close>

text \<open>
  What the editor is given: the page (the inline markers of its text, its highlights, its
  saved drawing), the colour scheme, and the canvas and context that mounting produced.
\<close>

record page =
  page_marks :: "span list"
  page_highlights :: "(string \<rightharpoonup> highlight) option"
  page_drawingData :: "dataurl option"

definition initial_editor :: "page \<Rightarrow> bool \<Rightarrow> canvas option \<Rightarrow> context2d option \<Rightarrow> editor" where
  "initial_editor pg dark cv ctx =
     \<lparr>tool = Text, selectedShape = Rect, color = ''#135bec'', recentColors = [],
      isDrawing = False,
      highlights = (case page_highlights pg of None \<Rightarrow> Map.empty | Some h \<Rightarrow> h),
      activeHighlightId = None, newComment = [],
      canvasRef = cv, contextRef = ctx,
      history = [], historyStep = - 1,
      startPos = None, snapshot = None, isShiftPressed = False, isDarkMode = dark,
      selection = None, marks = page_marks pg, console = [], execLog = [],
      pendingRestores = [], pendingInsertions = []\<rparr>"

text \<open>
  The events the component reacts to. Each handler runs to its end on the state the
  previous one left. \<open>DrawingLoaded\<close> is the callback of the saved drawing's decoder,
  \<open>RestoreDecoded k\<close> the callback of the pending restore number \<open>k\<close>,
  \<open>InsertImage\<close> the choice of a file and \<open>ImageDecoded k\<close> the callback of the
  pending insertion number \<open>k\<close>; \<open>Relayout\<close> and \<open>Select\<close> are changes of the
  page around the editor. A raise inside \<open>addComment\<close> leaves the state as it was.
\<close>

datatype event =
    SetTool ToolType
  | SetSelectedShape ShapeType
  | PickColor string
  | PointerDown pointer_event
  | PointerMove pointer_event
  | PointerUp
  | Undo
  | Redo
  | ShiftKey bool
  | DrawingLoaded dataurl
  | RestoreDecoded nat
  | InsertImage "string option"
  | ImageDecoded nat
  | Relayout DOMRect
  | Select "selection option"
  | HighlightClick string nat
  | EditorClick "string option"
  | SetNewComment string
  | AddCommentClick nat nat

fun step :: "editor \<Rightarrow> event \<Rightarrow> editor" where
  "step s (SetTool t) = s\<lparr>tool := t\<rparr>"
| "step s (SetSelectedShape sh) = s\<lparr>selectedShape := sh\<rparr>"
| "step s (PickColor c) = handleSetColor s c"
| "step s (PointerDown e) = state_of (startDrawing s e)"
| "step s (PointerMove e) = state_of (draw s e)"
| "step s PointerUp = stopDrawing s"
| "step s Undo = handleUndo s"
| "step s Redo = handleRedo s"
| "step s (ShiftKey b) = s\<lparr>isShiftPressed := b\<rparr>"
| "step s (DrawingLoaded d) =
     (case contextRef s of
        None \<Rightarrow> s
      | Some ctx \<Rightarrow>
          s\<lparr>canvasRef := on_bitmap (ctx_drawImage ctx (decode d)) (canvasRef s),
            history := [d], historyStep := 0\<rparr>)"
| "step s (RestoreDecoded k) = restore_onload s k"
| "step s (InsertImage file) = handleImageUpload s file"
| "step s (ImageDecoded k) = insertion_onload s k"
| "step s (Relayout r) =
     s\<lparr>canvasRef := map_option (\<lambda>cv. cv\<lparr>boundingClientRect := r\<rparr>) (canvasRef s)\<rparr>"
| "step s (Select sel) = s\<lparr>selection := sel\<rparr>"
| "step s (HighlightClick c now) = handleHighlight s c now"
| "step s (EditorClick hlId) = handleEditorClick s hlId"
| "step s (SetNewComment str) = s\<lparr>newComment := str\<rparr>"
| "step s (AddCommentClick n1 n2) =
     (case addComment s n1 n2 of Inl err \<Rightarrow> s | Inr s' \<Rightarrow> s')"

definition run :: "editor \<Rightarrow> event list \<Rightarrow> editor" where
  "run s evs = foldl step s evs"

section \<open>Vocabulary of the properties\<close>

text \<open>The pixels of the raster surface, when there is one.\<close>

definition surface :: "editor \<Rightarrow> bitmap option" where
  "surface s = map_option bitmap (canvasRef s)"

text \<open>The history pointer lies between \<open>-1\<close> and the last index.\<close>

definition hist_inv :: "editor \<Rightarrow> bool" where
  "hist_inv s = (- 1 \<le> historyStep s \<and> historyStep s \<le> int (length (history s)) - 1)"

text \<open>The bound, the uniqueness and the exclusion of presets that the colour cache keeps.\<close>

definition recent_ok :: "string list \<Rightarrow> bool" where
  "recent_ok rc = (length rc \<le> 5 \<and> distinct rc \<and> set rc \<inter> set PRESET_COLORS = {})"

text \<open>
  A completed stroke: the tool, shape and colour chosen for it, the pointer going down,
  the samples of the move (each with the state of the Shift key at that moment), and the
  pointer going up.
\<close>

record stroke =
  stroke_tool :: ToolType
  stroke_shape :: ShapeType
  stroke_color :: string
  stroke_down :: pointer_event
  stroke_moves :: "(bool \<times> pointer_event) list"

definition move_events :: "(bool \<times> pointer_event) list \<Rightarrow> event list" where
  "move_events ms = concat (map (\<lambda>(sh, e). [ShiftKey sh, PointerMove e]) ms)"

definition stroke_events :: "stroke \<Rightarrow> event list" where
  "stroke_events st =
     [SetTool (stroke_tool st), SetSelectedShape (stroke_shape st), PickColor (stroke_color st),
      PointerDown (stroke_down st)]
     @ move_events (stroke_moves st) @ [PointerUp]"

text \<open>
  The same canvas with twice the backing resolution, displayed twice as large at the same
  place.
\<close>

definition doubled :: "canvas \<Rightarrow> canvas" where
  "doubled cv =
     cv\<lparr>canvas_width := 2 * canvas_width cv,
        canvas_height := 2 * canvas_height cv,
        boundingClientRect :=
          (boundingClientRect cv)\<lparr>rect_width := 2 * rect_width (boundingClientRect cv),
                                  rect_height := 2 * rect_height (boundingClientRect cv)\<rparr>\<rparr>"

text \<open>What a pointer event is mapped with: the sizes of the canvas and where it is shown.\<close>

definition geometry :: "canvas \<Rightarrow> nat \<times> nat \<times> DOMRect" where
  "geometry cv = (canvas_width cv, canvas_height cv, boundingClientRect cv)"

text \<open>
  The pen of a preview, as the table of tools gives it: line width, opacity, blend mode.
\<close>

fun preview_style :: "ToolType \<Rightarrow> real \<times> real \<times> gco" where
  "preview_style Fine_liner = (1, 1, SourceOver)"
| "preview_style Pen = (3, 1, SourceOver)"
| "preview_style Marker = (8, 1, SourceOver)"
| "preview_style Highlighter = (24, 35 / 100, Multiply)"
| "preview_style _ = (2, 1, SourceOver)"

text \<open>
  The one primitive of a preview, from the start of the stroke \<open>(sx, sy)\<close> to the current
  sample \<open>(x, y)\<close>, in the words of the specification: the rectangle spanning the two
  points, the circle around the start through the sample, the triangle with its apex over
  the middle of the span, the segment between the two points.
\<close>

definition preview_primitive ::
  "ToolType \<Rightarrow> ShapeType \<Rightarrow> real \<Rightarrow> real \<Rightarrow> real \<Rightarrow> real \<Rightarrow> pathcmd list" where
  "preview_primitive t sh sx sy x y =
     (if t = Shape then
        (case sh of
           Rect \<Rightarrow> [RectPath sx sy (x - sx) (y - sy)]
         | Circle \<Rightarrow> [ArcPath sx sy (sqrt ((x - sx) * (x - sx) + (y - sy) * (y - sy))) 0 (2 * pi)]
         | Triangle \<Rightarrow>
             [MoveTo (sx + (x - sx) / 2) sy, LineTo sx (sy + (y - sy)),
              LineTo (sx + (x - sx)) (sy + (y - sy)), ClosePath]
         | Line \<Rightarrow> [MoveTo sx sy, LineTo x y])
      else [MoveTo sx sy, LineTo x y])"

text \<open>What the last paint call painted over, and the path it painted.\<close>

fun underlay :: "bitmap \<Rightarrow> bitmap" where
  "underlay (Stroked b _ _ _ _ _) = b"
| "underlay (Composite b _ _ _) = b"
| "underlay (Placed b _ _ _ _ _) = b"
| "underlay Blank = Blank"

fun painted_path :: "bitmap \<Rightarrow> pathcmd list" where
  "painted_path (Stroked _ _ _ _ _ p) = p"
| "painted_path _ = []"

text \<open>
  An undo and a redo whose restore is decoded before anything else happens: the click,
  then the callback of the oldest pending restore.
\<close>

definition undo_decoded :: "editor \<Rightarrow> editor" where
  "undo_decoded s = restore_onload (handleUndo s) 0"

definition redo_decoded :: "editor \<Rightarrow> editor" where
  "redo_decoded s = restore_onload (handleRedo s) 0"

subsection \<open>A concrete editor\<close>

text \<open>
  An 800 by 1200 canvas shown at half its resolution, 20 pixels from the left and 100 from
  the top of the viewport.
\<close>

definition example_canvas :: canvas where
  "example_canvas =
     \<lparr>canvas_width = 800, canvas_height = 1200,
      boundingClientRect = \<lparr>rect_left = 20, rect_top = 100, rect_width = 400, rect_height = 600\<rparr>,
      bitmap = Blank\<rparr>"

definition example_context :: context2d where
  "example_context =
     \<lparr>path = [], strokeStyle = ''#000000'', fillStyle = ''#000000'', lineWidth = 1,
      globalAlpha = 1, globalCompositeOperation = SourceOver\<rparr>"

definition example_page :: page where
  "example_page = \<lparr>page_marks = [], page_highlights = None, page_drawingData = None\<rparr>"

definition example_editor :: editor where
  "example_editor = initial_editor example_page False (Some example_canvas) (Some example_context)"

text \<open>
  Two strokes that cross: a pen line from the surface point \<open>(20, 20)\<close> to
  \<open>(60, 100)\<close>, drawn with the Shift key held, and an eraser stroke from
  \<open>(20, 100)\<close> to \<open>(60, 20)\<close>, which removes the middle of the line.
\<close>

definition pen_stroke :: stroke where
  "pen_stroke =
     \<lparr>stroke_tool = Pen, stroke_shape = Rect, stroke_color = ''#135bec'',
      stroke_down = MouseEvent 30 110,
      stroke_moves = [(False, MouseEvent 40 120), (True, MouseEvent 50 150)]\<rparr>"

definition eraser_stroke :: stroke where
  "eraser_stroke =
     \<lparr>stroke_tool = Eraser, stroke_shape = Rect, stroke_color = ''#135bec'',
      stroke_down = MouseEvent 30 150,
      stroke_moves = [(False, MouseEvent 50 110)]\<rparr>"

definition pen_line :: bitmap where
  "pen_line = Stroked Blank ''#135bec'' 3 1 SourceOver [MoveTo 20 20, LineTo 60 100]"

definition pen_line_erased :: bitmap where
  "pen_line_erased = Stroked pen_line ''white'' 40 1 DestinationOut [MoveTo 20 100, LineTo 60 20]"

text \<open>
  Two clicks on redo of which the second comes before the first restore is decoded, after
  two undos that were each decoded in time; the decoder then calls back in the order of
  the clicks.
\<close>

definition overlapping_redo_events :: "event list" where
  "overlapping_redo_events =
     [Undo, RestoreDecoded 0, Undo, Redo, Redo, RestoreDecoded 0, RestoreDecoded 0]"

text \<open>
  Three pen strokes; then a file is chosen, and before its picture is decoded the last
  stroke is undone.
\<close>

definition three_stroke_events :: "event list" where
  "three_stroke_events =
     [SetTool Pen,
      PointerDown (MouseEvent 30 110), PointerMove (MouseEvent 40 120), PointerUp,
      PointerDown (MouseEvent 30 130), PointerMove (MouseEvent 40 140), PointerUp,
      PointerDown (MouseEvent 30 150), PointerMove (MouseEvent 40 160), PointerUp]"

definition insertion_after_undo_events :: "event list" where
  "insertion_after_undo_events =
     [InsertImage (Some ''photo''), Undo, RestoreDecoded 0, ImageDecoded 0]"

text \<open>
  A file is chosen on the empty surface, and a stroke is completed before its picture is
  decoded.
\<close>

definition stale_insertion_events :: "event list" where
  "stale_insertion_events =
     [SetTool Pen, InsertImage (Some ''photo''),
      PointerDown (MouseEvent 30 110), PointerMove (MouseEvent 40 120), PointerUp,
      ImageDecoded 0]"

text \<open>An eraser stroke with the Shift key held from its first sample on.\<close>

definition eraser_shift_events :: "event list" where
  "eraser_shift_events =
     [SetTool Eraser, PointerDown (MouseEvent 30 110), ShiftKey True,
      PointerMove (MouseEvent 40 120), PointerMove (MouseEvent 50 150)]"

text \<open>
  A selection that crosses block boundaries, a collapsed one, and a page whose text
  carries a marker that its highlight map does not know.
\<close>

definition wide_selection :: selection where
  "wide_selection = \<lparr>rangeCount = 1, isCollapsed = False, partially_selects_non_text = True\<rparr>"

definition collapsed_selection :: selection where
  "collapsed_selection = \<lparr>rangeCount = 1, isCollapsed = True, partially_selects_non_text = False\<rparr>"

definition orphan_page :: page where
  "orphan_page =
     \<lparr>page_marks = [\<lparr>span_backgroundColor = ''#fef08a'', span_highlight_id = ''hl_1''\<rparr>],
      page_highlights = None, page_drawingData = None\<rparr>"

section \<open>Running events\<close>

lemma run_simps [simp]:
  "run s [] = s"
  "run s (ev # evs) = run (step s ev) evs"
  "run s (xs @ ys) = run (run s xs) ys"
  by (simp_all add: run_def)

section \<open>The colour cache\<close>

lemma handleSetColor_recent:
  "recentColors (handleSetColor s c) =
     (if c \<in> set PRESET_COLORS then recentColors s
      else take 5 (c # filter (\<lambda>x. x \<noteq> c) (recentColors s)))"
  by (simp add: handleSetColor_def Let_def)

lemma recent_ok_setColor: "recent_ok (recentColors s) \<Longrightarrow> recent_ok (recentColors (handleSetColor s c))"
  unfolding recent_ok_def handleSetColor_recent
  by (auto dest!: in_set_takeD)

lemma startDrawing_recent: "recentColors (state_of (startDrawing s e)) = recentColors s"
  by (auto simp: startDrawing_def Let_def split: sum.splits option.splits prod.splits)

lemma draw_recent: "recentColors (state_of (draw s e)) = recentColors s"
  by (auto simp: draw_def Let_def split: sum.splits option.splits prod.splits)

lemma restore_recent: "recentColors (restoreCanvasState s d) = recentColors s"
  by (auto simp: restoreCanvasState_def Let_def split: option.splits)

lemma restore_onload_recent: "recentColors (restore_onload s k) = recentColors s"
  by (auto simp: restore_onload_def Let_def split: option.splits)

lemma save_recent: "recentColors (saveCanvasToHistory k s) = recentColors s"
  by (auto simp: saveCanvasToHistory_def split: option.splits)

lemma upload_recent: "recentColors (handleImageUpload s f) = recentColors s"
  by (auto simp: handleImageUpload_def split: option.splits)

lemma insertion_onload_recent: "recentColors (insertion_onload s k) = recentColors s"
  by (auto simp: insertion_onload_def Let_def save_recent split: option.splits prod.splits)

lemma stop_recent: "recentColors (stopDrawing s) = recentColors s"
  by (auto simp: stopDrawing_def Let_def save_recent)

lemma undo_recent: "recentColors (handleUndo s) = recentColors s"
  by (auto simp: handleUndo_def Let_def execCommand_def restore_recent split: option.splits)

lemma redo_recent: "recentColors (handleRedo s) = recentColors s"
  by (auto simp: handleRedo_def Let_def execCommand_def restore_recent split: option.splits)

lemma highlight_recent: "recentColors (handleHighlight s c n) = recentColors s"
  by (auto simp: handleHighlight_def Let_def split: option.splits)

lemma click_recent: "recentColors (handleEditorClick s i) = recentColors s"
  by (auto simp: handleEditorClick_def split: option.splits)

lemma addComment_recent: "addComment s a b = Inr s' \<Longrightarrow> recentColors s' = recentColors s"
  unfolding addComment_def Let_def
  by (cases "activeHighlightId s"; cases "highlights s (the (activeHighlightId s))";
      cases "the (activeHighlightId s) = [] \<or> js_trim (newComment s) = []") auto

lemma step_recent: "recent_ok (recentColors s) \<Longrightarrow> recent_ok (recentColors (step s ev))"
  by (cases ev)
    (auto simp: recent_ok_setColor startDrawing_recent draw_recent stop_recent undo_recent
       upload_recent redo_recent highlight_recent click_recent addComment_recent
       restore_onload_recent insertion_onload_recent split: option.splits sum.splits)

lemma run_recent: "recent_ok (recentColors s) \<Longrightarrow> recent_ok (recentColors (run s evs))"
  unfolding run_def
  by (induction evs arbitrary: s) (simp_all add: step_recent)

text \<open>
  Claim C6. From the initial state of the editor, after any sequence of events (among
  them every sequence of colour selections) \<open>recentColors\<close> has at most five
  entries, has no entry twice and has no preset colour; and selecting a colour \<open>c\<close>
  that is not a preset makes the cache \<open>c\<close> followed by the former entries other than
  \<open>c\<close>, cut to five.
\<close>

theorem recentColors_bounded_distinct_no_preset:
  "length (recentColors (run (initial_editor pg dark cv ctx) evs)) \<le> 5
   \<and> distinct (recentColors (run (initial_editor pg dark cv ctx) evs))
   \<and> set (recentColors (run (initial_editor pg dark cv ctx) evs)) \<inter> set PRESET_COLORS = {}
   \<and> (c \<notin> set PRESET_COLORS \<longrightarrow>
        recentColors (handleSetColor (run (initial_editor pg dark cv ctx) evs) c)
          = take 5 (c # filter (\<lambda>x. x \<noteq> c) (recentColors (run (initial_editor pg dark cv ctx) evs))))"
proof -
  have "recent_ok (recentColors (initial_editor pg dark cv ctx))"
    by (simp add: recent_ok_def initial_editor_def)
  then have "recent_ok (recentColors (run (initial_editor pg dark cv ctx) evs))"
    by (rule run_recent)
  then show ?thesis
    by (simp add: recent_ok_def handleSetColor_recent)
qed


theorem recentColors_witness:
  "''#123456'' \<notin> set PRESET_COLORS
   \<and> recentColors
        (run (initial_editor example_page False (Some example_canvas) (Some example_context))
           [PickColor ''#111111'', PickColor ''#123456'', PickColor ''#000000''])
       = [''#123456'', ''#111111'']
   \<and> recentColors
        (handleSetColor
           (run (initial_editor example_page False (Some example_canvas) (Some example_context))
              [PickColor ''#111111'', PickColor ''#123456'', PickColor ''#000000''])
           ''#111111'')
       = [''#111111'', ''#123456'']"
  using recentColors_bounded_distinct_no_preset
    [of example_page False "Some example_canvas" "Some example_context"
        "[PickColor ''#111111'', PickColor ''#123456'', PickColor ''#000000'']" "''#111111''"]
  by (simp add: PRESET_COLORS_def handleSetColor_def initial_editor_def)

section \<open>Properties of the coordinate mapping\<close>

lemma js_div_doubled: "js_div (Fin (2 * a)) (Fin (2 * b)) = js_div (Fin a) (Fin b)"
  by (simp add: inf_of_sign_def)

text \<open>
  Claim C7. The pointer position relative to the displayed element is the offset of the
  event's client position from the element's top-left corner. With the canvas doubled in
  backing resolution and in displayed size, the same event at the same offset maps to the
  same coordinates.
\<close>

theorem getCoordinates_doubled:
  "getCoordinates (s\<lparr>canvasRef := Some (doubled cv)\<rparr>) e
     = getCoordinates (s\<lparr>canvasRef := Some cv\<rparr>) e"
  by (simp add: getCoordinates_def doubled_def Let_def js_div_doubled
      split: pointer_event.splits list.splits)

theorem getCoordinates_doubled_witness:
  "getCoordinates (example_editor\<lparr>canvasRef := Some (doubled example_canvas)\<rparr>) (MouseEvent 70 130)
     = Inr (Fin 100, Fin 60)
   \<and> getCoordinates (example_editor\<lparr>canvasRef := Some example_canvas\<rparr>) (MouseEvent 70 130)
     = Inr (Fin 100, Fin 60)"
  using getCoordinates_doubled [where s = example_editor and cv = example_canvas
      and e = "MouseEvent 70 130"]
  by (simp add: getCoordinates_def example_canvas_def js_sub_def)

text \<open>
  Claim C8. Without a canvas the mapper returns the origin for every event, without
  raising. With a canvas, a mouse event is mapped from its client position and a touch
  event from its first touch point, each axis scaled by its own ratio of the backing size
  to the displayed size; where the displayed sizes are not zero, the coordinates are the
  finite numbers \<open>(clientX - left) * (width / displayedWidth)\<close> and
  \<open>(clientY - top) * (height / displayedHeight)\<close>.
\<close>

theorem getCoordinates_cases:
  "getCoordinates (s\<lparr>canvasRef := None\<rparr>) e = Inr (Fin 0, Fin 0)
   \<and> getCoordinates (s\<lparr>canvasRef := Some cv\<rparr>) (MouseEvent x y) =
       Inr (js_mul (Fin (x - rect_left (boundingClientRect cv)))
              (js_div (Fin (real (canvas_width cv))) (Fin (rect_width (boundingClientRect cv)))),
            js_mul (Fin (y - rect_top (boundingClientRect cv)))
              (js_div (Fin (real (canvas_height cv))) (Fin (rect_height (boundingClientRect cv)))))
   \<and> getCoordinates (s\<lparr>canvasRef := Some cv\<rparr>) (TouchEvent (t # ts)) =
       Inr (js_mul (Fin (touch_clientX t - rect_left (boundingClientRect cv)))
              (js_div (Fin (real (canvas_width cv))) (Fin (rect_width (boundingClientRect cv)))),
            js_mul (Fin (touch_clientY t - rect_top (boundingClientRect cv)))
              (js_div (Fin (real (canvas_height cv))) (Fin (rect_height (boundingClientRect cv)))))
   \<and> (rect_width (boundingClientRect cv) \<noteq> 0 \<and> rect_height (boundingClientRect cv) \<noteq> 0 \<longrightarrow>
        getCoordinates (s\<lparr>canvasRef := Some cv\<rparr>) (MouseEvent x y) =
          Inr (Fin ((x - rect_left (boundingClientRect cv))
                    * (real (canvas_width cv) / rect_width (boundingClientRect cv))),
               Fin ((y - rect_top (boundingClientRect cv))
                    * (real (canvas_height cv) / rect_height (boundingClientRect cv)))))"
  by (simp add: getCoordinates_def Let_def js_sub_def)

theorem getCoordinates_cases_witness:
  "getCoordinates (example_editor\<lparr>canvasRef := None\<rparr>) (TouchEvent []) = Inr (Fin 0, Fin 0)
   \<and> getCoordinates (example_editor\<lparr>canvasRef := Some example_canvas\<rparr>) (MouseEvent 70 130)
       = Inr (Fin 100, Fin 60)
   \<and> getCoordinates (example_editor\<lparr>canvasRef := Some example_canvas\<rparr>)
         (TouchEvent [\<lparr>touch_clientX = 70, touch_clientY = 130\<rparr>,
                      \<lparr>touch_clientX = 0, touch_clientY = 0\<rparr>])
       = Inr (Fin 100, Fin 60)"
  using getCoordinates_cases [of example_editor "TouchEvent []" example_canvas 70 130
      "\<lparr>touch_clientX = 70, touch_clientY = 130\<rparr>" "[\<lparr>touch_clientX = 0, touch_clientY = 0\<rparr>]"]
  by (simp add: example_canvas_def)

text \<open>A touch event without a touch point, on a canvas: the mapper raises.\<close>

lemma getCoordinates_no_touch:
  "getCoordinates (s\<lparr>canvasRef := Some cv\<rparr>) (TouchEvent []) = Inl TypeError"
  by (simp add: getCoordinates_def)

text \<open>
  If the pointer's offset from the corner of the element is doubled together with the
  element (the same fraction of the element, not the same offset), the finite mapped
  coordinates double as well.
\<close>

lemma getCoordinates_doubled_offset:
  assumes "rect_width (boundingClientRect cv) \<noteq> 0" and "rect_height (boundingClientRect cv) \<noteq> 0"
  shows "getCoordinates (s\<lparr>canvasRef := Some (doubled cv)\<rparr>)
           (MouseEvent (rect_left (boundingClientRect cv) + 2 * dx)
                       (rect_top (boundingClientRect cv) + 2 * dy))
         = Inr (Fin (2 * (dx * (real (canvas_width cv) / rect_width (boundingClientRect cv)))),
                Fin (2 * (dy * (real (canvas_height cv) / rect_height (boundingClientRect cv)))))"
    and "getCoordinates (s\<lparr>canvasRef := Some cv\<rparr>)
           (MouseEvent (rect_left (boundingClientRect cv) + dx)
                       (rect_top (boundingClientRect cv) + dy))
         = Inr (Fin (dx * (real (canvas_width cv) / rect_width (boundingClientRect cv))),
                Fin (dy * (real (canvas_height cv) / rect_height (boundingClientRect cv))))"
  using assms by (simp_all add: getCoordinates_def doubled_def Let_def js_sub_def)

section \<open>The history pointer\<close>

lemma js_slice0_take: "0 \<le> e \<Longrightarrow> js_slice0 xs e = take (nat e) xs"
  by (auto simp: js_slice0_def Let_def min_def)

lemma save_history:
  "canvasRef s = Some cv \<Longrightarrow>
   history (saveCanvasToHistory k s) = js_slice0 (history s) (k + 1) @ [toDataURL cv]"
  "canvasRef s = Some cv \<Longrightarrow> historyStep (saveCanvasToHistory k s) = historyStep s + 1"
  "canvasRef s = None \<Longrightarrow> saveCanvasToHistory k s = s"
  by (simp_all add: saveCanvasToHistory_def)

lemma save_frame:
  "canvasRef (saveCanvasToHistory k s) = canvasRef s"
  "contextRef (saveCanvasToHistory k s) = contextRef s"
  "tool (saveCanvasToHistory k s) = tool s"
  "isDrawing (saveCanvasToHistory k s) = isDrawing s"
  "pendingRestores (saveCanvasToHistory k s) = pendingRestores s"
  by (simp_all add: saveCanvasToHistory_def split: option.splits)

text \<open>A push that cuts at the pointer of the state in which it runs keeps the bounds.\<close>

lemma save_inv: "hist_inv s \<Longrightarrow> hist_inv (saveCanvasToHistory (historyStep s) s)"
  by (cases "canvasRef s") (auto simp: hist_inv_def save_history js_slice0_take)

lemma restore_frame:
  "history (restoreCanvasState s d) = history s"
  "historyStep (restoreCanvasState s d) = historyStep s"
  "tool (restoreCanvasState s d) = tool s"
  "isDrawing (restoreCanvasState s d) = isDrawing s"
  "(canvasRef (restoreCanvasState s d) = None) = (canvasRef s = None)"
  "(contextRef (restoreCanvasState s d) = None) = (contextRef s = None)"
  by (auto simp: restoreCanvasState_def Let_def split: option.splits)

lemma restore_onload_frame:
  "history (restore_onload s k) = history s"
  "historyStep (restore_onload s k) = historyStep s"
  "tool (restore_onload s k) = tool s"
  "isDrawing (restore_onload s k) = isDrawing s"
  "(canvasRef (restore_onload s k) = None) = (canvasRef s = None)"
  "(contextRef (restore_onload s k) = None) = (contextRef s = None)"
  by (auto simp: restore_onload_def Let_def on_bitmap_def split: option.splits)

lemma undo_inv: "hist_inv s \<Longrightarrow> hist_inv (handleUndo s)"
  by (auto simp: hist_inv_def handleUndo_def Let_def execCommand_def restore_frame split: option.splits)

lemma redo_inv: "hist_inv s \<Longrightarrow> hist_inv (handleRedo s)"
  by (auto simp: hist_inv_def handleRedo_def Let_def execCommand_def restore_frame split: option.splits)

lemma startDrawing_frame:
  "history (state_of (startDrawing s e)) = history s"
  "historyStep (state_of (startDrawing s e)) = historyStep s"
  "tool (state_of (startDrawing s e)) = tool s"
  "canvasRef (state_of (startDrawing s e)) = canvasRef s"
  "(contextRef (state_of (startDrawing s e)) = None) = (contextRef s = None)"
  "tool s \<noteq> Text \<Longrightarrow> isDrawing (state_of (startDrawing s e))"
  "pendingRestores (state_of (startDrawing s e)) = pendingRestores s"
  by (auto simp: startDrawing_def Let_def split: sum.splits option.splits prod.splits)

lemma draw_frame:
  "history (state_of (draw s e)) = history s"
  "historyStep (state_of (draw s e)) = historyStep s"
  "tool (state_of (draw s e)) = tool s"
  "isDrawing (state_of (draw s e)) = isDrawing s"
  "(canvasRef (state_of (draw s e)) = None) = (canvasRef s = None)"
  "(contextRef (state_of (draw s e)) = None) = (contextRef s = None)"
  "pendingRestores (state_of (draw s e)) = pendingRestores s"
  by (auto simp: draw_def Let_def on_bitmap_def split: sum.splits option.splits prod.splits)

lemma stop_inv:
  assumes "hist_inv s"
  shows "hist_inv (stopDrawing s)"
proof (cases "isDrawing s")
  case True
  let ?s2 = "s\<lparr>contextRef :=
                 map_option (\<lambda>ctx. ctx\<lparr>path := ctx_closePath (path ctx)\<rparr>) (contextRef s),
               isDrawing := False, startPos := None, snapshot := None\<rparr>"
  have "hist_inv ?s2"
    using assms by (simp add: hist_inv_def)
  then have "hist_inv (saveCanvasToHistory (historyStep ?s2) ?s2)"
    by (rule save_inv)
  then show ?thesis
    using True by (simp add: stopDrawing_def Let_def)
next
  case False
  then show ?thesis
    using assms by (simp add: stopDrawing_def)
qed

lemma stop_frame:
  "tool (stopDrawing s) = tool s"
  "canvasRef (stopDrawing s) = canvasRef s"
  "(contextRef (stopDrawing s) = None) = (contextRef s = None)"
  "pendingRestores (stopDrawing s) = pendingRestores s"
  by (auto simp: stopDrawing_def Let_def save_frame)

lemma stop_push:
  "isDrawing s \<Longrightarrow> canvasRef s = Some cv \<Longrightarrow>
   history (stopDrawing s) = js_slice0 (history s) (historyStep s + 1) @ [toDataURL cv]
   \<and> historyStep (stopDrawing s) = historyStep s + 1"
  by (simp add: stopDrawing_def Let_def save_history)

lemma highlight_hist:
  "history (handleHighlight s c n) = history s" "historyStep (handleHighlight s c n) = historyStep s"
  by (auto simp: handleHighlight_def Let_def split: option.splits)

lemma click_hist:
  "history (handleEditorClick s i) = history s" "historyStep (handleEditorClick s i) = historyStep s"
  by (auto simp: handleEditorClick_def split: option.splits)

lemma setColor_hist:
  "history (handleSetColor s c) = history s" "historyStep (handleSetColor s c) = historyStep s"
  by (auto simp: handleSetColor_def Let_def)

lemma addComment_hist:
  "addComment s a b = Inr s' \<Longrightarrow> history s' = history s \<and> historyStep s' = historyStep s"
  unfolding addComment_def Let_def
  by (cases "activeHighlightId s"; cases "highlights s (the (activeHighlightId s))";
      cases "the (activeHighlightId s) = [] \<or> js_trim (newComment s) = []") auto

lemma upload_hist:
  "history (handleImageUpload s f) = history s" "historyStep (handleImageUpload s f) = historyStep s"
  by (auto simp: handleImageUpload_def split: option.splits)

lemma hist_inv_same:
  "hist_inv s \<Longrightarrow> history s' = history s \<Longrightarrow> historyStep s' = historyStep s \<Longrightarrow> hist_inv s'"
  by (simp add: hist_inv_def)

text \<open>
  Every event but the callback of an inserted picture keeps the pointer within its bounds.
\<close>

lemma step_inv:
  assumes "hist_inv s" and "\<And>k. ev \<noteq> ImageDecoded k"
  shows "hist_inv (step s ev)"
proof (cases ev)
  case (PointerDown e)
  then show ?thesis using assms(1) by (simp add: hist_inv_same startDrawing_frame)
next
  case (PointerMove e)
  then show ?thesis using assms(1) by (simp add: hist_inv_same draw_frame)
next
  case PointerUp
  then show ?thesis using assms(1) by (simp add: stop_inv)
next
  case Undo
  then show ?thesis using assms(1) by (simp add: undo_inv)
next
  case Redo
  then show ?thesis using assms(1) by (simp add: redo_inv)
next
  case (PickColor c)
  then show ?thesis using assms(1) by (simp add: hist_inv_same setColor_hist)
next
  case (DrawingLoaded d)
  then show ?thesis using assms(1) by (cases "contextRef s") (simp_all add: hist_inv_def)
next
  case (RestoreDecoded k)
  then show ?thesis using assms(1) by (simp add: hist_inv_same restore_onload_frame)
next
  case (InsertImage f)
  then show ?thesis using assms(1) by (simp add: hist_inv_same upload_hist)
next
  case (ImageDecoded k)
  then show ?thesis using assms(2) by simp
next
  case (HighlightClick c n)
  then show ?thesis using assms(1) by (simp add: hist_inv_same highlight_hist)
next
  case (EditorClick i)
  then show ?thesis using assms(1) by (simp add: hist_inv_same click_hist)
next
  case (AddCommentClick n1 n2)
  then show ?thesis using assms(1)
    by (cases "addComment s n1 n2") (auto dest!: addComment_hist intro: hist_inv_same)
qed (use assms(1) in \<open>simp_all add: hist_inv_def\<close>)

lemma run_inv:
  "hist_inv s \<Longrightarrow> (\<And>k. ImageDecoded k \<notin> set evs) \<Longrightarrow> hist_inv (run s evs)"
proof (induction evs arbitrary: s)
  case Nil
  then show ?case by simp
next
  case (Cons ev evs)
  have "hist_inv (step s ev)"
    using Cons.prems by (intro step_inv) auto
  then show ?case
    using Cons.IH [of "step s ev"] Cons.prems(2) by simp
qed

text \<open>
  The callback of an inserted picture keeps the bounds when the pointer it captured is
  still the current one.
\<close>

lemma insertion_onload_inv:
  assumes "hist_inv s" and "k < length (pendingInsertions s)"
    and "snd (pendingInsertions s ! k) = historyStep s"
  shows "hist_inv (insertion_onload s k)"
proof (cases "contextRef s")
  case None
  then show ?thesis
    using assms by (simp add: insertion_onload_def Let_def hist_inv_def split: prod.splits)
next
  case (Some ctx)
  obtain src where p: "pendingInsertions s ! k = (src, historyStep s)"
    using assms(3) by (cases "pendingInsertions s ! k") simp
  let ?p = "s\<lparr>pendingInsertions := remove_nth k (pendingInsertions s),
               contextRef := Some (ctx\<lparr>globalCompositeOperation := SourceOver, globalAlpha := 1\<rparr>),
               canvasRef := on_bitmap (\<lambda>b. Placed b src 50 50 200 200) (canvasRef s)\<rparr>"
  have "hist_inv ?p"
    using assms(1) by (simp add: hist_inv_def)
  then have "hist_inv (saveCanvasToHistory (historyStep ?p) ?p)"
    by (rule save_inv)
  then show ?thesis
    using Some p assms(2) by (simp add: insertion_onload_def Let_def)
qed

lemma undo_at_bottom: "historyStep s = - 1 \<Longrightarrow> tool s \<noteq> Text \<Longrightarrow> handleUndo s = s"
  by (simp add: handleUndo_def)

lemma redo_at_top:
  "historyStep s = int (length (history s)) - 1 \<Longrightarrow> tool s \<noteq> Text \<Longrightarrow> handleRedo s = s"
  by (simp add: handleRedo_def)

lemma undo_at_zero:
  "historyStep s = 0 \<Longrightarrow> tool s \<noteq> Text \<Longrightarrow> contextRef s = Some ctx \<Longrightarrow> canvasRef s = Some cv \<Longrightarrow>
   handleUndo s = s\<lparr>historyStep := - 1, canvasRef := Some (cv\<lparr>bitmap := Blank\<rparr>)\<rparr>"
  by (simp add: handleUndo_def)

lemma undo_frame:
  "history (handleUndo s) = history s"
  "tool (handleUndo s) = tool s"
  "(canvasRef (handleUndo s) = None) = (canvasRef s = None)"
  "(contextRef (handleUndo s) = None) = (contextRef s = None)"
  by (auto simp: handleUndo_def Let_def execCommand_def restore_frame split: option.splits)

lemma undo_pointer:
  "tool s \<noteq> Text \<Longrightarrow> - 1 \<le> historyStep s \<Longrightarrow>
   historyStep (handleUndo s) = max (- 1) (historyStep s - 1)"
  by (auto simp: handleUndo_def Let_def restore_frame split: option.splits)

lemma redo_frame:
  "history (handleRedo s) = history s"
  "tool (handleRedo s) = tool s"
  "(canvasRef (handleRedo s) = None) = (canvasRef s = None)"
  "(contextRef (handleRedo s) = None) = (contextRef s = None)"
  by (auto simp: handleRedo_def Let_def execCommand_def restore_frame split: option.splits)

lemma redo_pointer:
  "tool s \<noteq> Text \<Longrightarrow> historyStep s < int (length (history s)) - 1 \<Longrightarrow>
   historyStep (handleRedo s) = historyStep s + 1"
  by (simp add: handleRedo_def Let_def restore_frame)

subsection \<open>A restore whose decoder calls back before the next event\<close>

lemma remove_nth_single [simp]: "remove_nth 0 [x] = []"
  by (simp add: remove_nth_def)

lemma restore_then_onload:
  assumes "pendingRestores s = []"
  shows "pendingRestores (restore_onload (restoreCanvasState s d) 0) = []"
    and "contextRef s \<noteq> None \<Longrightarrow> canvasRef s \<noteq> None \<Longrightarrow>
         surface (restore_onload (restoreCanvasState s (Some x)) 0) = Some (decode x)"
    and "contextRef s = None \<Longrightarrow>
         canvasRef (restore_onload (restoreCanvasState s d) 0) = canvasRef s"
  using assms
  by (auto simp: restoreCanvasState_def restore_onload_def Let_def on_bitmap_def surface_def
      ctx_drawImage_def split: option.splits)

lemma onload_nothing_pending: "pendingRestores s = [] \<Longrightarrow> restore_onload s k = s"
  by (simp add: restore_onload_def)

lemma undo_decoded_frame:
  "history (undo_decoded s) = history s"
  "tool (undo_decoded s) = tool s"
  "(canvasRef (undo_decoded s) = None) = (canvasRef s = None)"
  "(contextRef (undo_decoded s) = None) = (contextRef s = None)"
  by (simp_all add: undo_decoded_def restore_onload_frame undo_frame)

lemma undo_decoded_pointer:
  "tool s \<noteq> Text \<Longrightarrow> - 1 \<le> historyStep s \<Longrightarrow>
   historyStep (undo_decoded s) = max (- 1) (historyStep s - 1)"
  by (simp add: undo_decoded_def restore_onload_frame undo_pointer)

lemma undo_decoded_settled:
  assumes "pendingRestores s = []"
  shows "pendingRestores (undo_decoded s) = []"
proof -
  consider "tool s = Text" | "tool s \<noteq> Text" "historyStep s > 0"
    | "tool s \<noteq> Text" "\<not> historyStep s > 0"
    by blast
  then show ?thesis
  proof cases
    case 1
    then show ?thesis
      using assms by (simp add: undo_decoded_def handleUndo_def execCommand_def restore_onload_def)
  next
    case 2
    have "pendingRestores (s\<lparr>historyStep := historyStep s - 1\<rparr>) = []"
      using assms by simp
    then show ?thesis
      using 2 restore_then_onload(1) by (simp add: undo_decoded_def handleUndo_def Let_def)
  next
    case 3
    then show ?thesis
      using assms
      by (auto simp: undo_decoded_def handleUndo_def restore_onload_def split: option.splits)
  qed
qed

lemma undo_decoded_without_context:
  assumes "pendingRestores s = []" and "contextRef s = None"
  shows "canvasRef (undo_decoded s) = canvasRef s"
  using assms
  by (simp add: undo_decoded_def handleUndo_def execCommand_def restoreCanvasState_def
      restore_onload_def Let_def)

lemma undo_decoded_funpow:
  assumes "tool s \<noteq> Text" and "- 1 \<le> historyStep s" and "pendingRestores s = []"
  shows "historyStep ((undo_decoded ^^ k) s) = max (- 1) (historyStep s - int k)
   \<and> history ((undo_decoded ^^ k) s) = history s
   \<and> tool ((undo_decoded ^^ k) s) = tool s
   \<and> pendingRestores ((undo_decoded ^^ k) s) = []
   \<and> (canvasRef ((undo_decoded ^^ k) s) = None) = (canvasRef s = None)
   \<and> (contextRef ((undo_decoded ^^ k) s) = None) = (contextRef s = None)
   \<and> (contextRef s = None \<longrightarrow> canvasRef ((undo_decoded ^^ k) s) = canvasRef s)"
proof (induction k)
  case 0
  then show ?case using assms by simp
next
  case (Suc k)
  let ?u = "(undo_decoded ^^ k) s"
  have IH: "historyStep ?u = max (- 1) (historyStep s - int k)" "history ?u = history s"
    "tool ?u = tool s" "pendingRestores ?u = []"
    "(canvasRef ?u = None) = (canvasRef s = None)" "(contextRef ?u = None) = (contextRef s = None)"
    "contextRef s = None \<longrightarrow> canvasRef ?u = canvasRef s"
    using Suc by blast+
  have t: "tool ?u \<noteq> Text" using IH(3) assms(1) by simp
  have lo: "- 1 \<le> historyStep ?u" using IH(1) by simp
  have "historyStep (undo_decoded ?u) = max (- 1) (historyStep s - int (Suc k))"
    using undo_decoded_pointer [OF t lo] IH(1) by simp
  moreover have "pendingRestores (undo_decoded ?u) = []"
    using undo_decoded_settled [OF IH(4)] .
  moreover have "contextRef s = None \<longrightarrow> canvasRef (undo_decoded ?u) = canvasRef s"
    using undo_decoded_without_context [OF IH(4)] IH(6,7) by simp
  ultimately show ?case
    using IH(2,3,5,6) by (simp add: undo_decoded_frame)
qed

lemma redo_decoded_frame:
  "history (redo_decoded s) = history s"
  "tool (redo_decoded s) = tool s"
  "(canvasRef (redo_decoded s) = None) = (canvasRef s = None)"
  "(contextRef (redo_decoded s) = None) = (contextRef s = None)"
  by (simp_all add: redo_decoded_def restore_onload_frame redo_frame)

lemma redo_decoded_forward:
  assumes "tool s \<noteq> Text" and "historyStep s < int (length (history s)) - 1"
    and "- 1 \<le> historyStep s" and "pendingRestores s = []"
  shows "historyStep (redo_decoded s) = historyStep s + 1"
    and "pendingRestores (redo_decoded s) = []"
    and "contextRef s \<noteq> None \<Longrightarrow> canvasRef s \<noteq> None \<Longrightarrow>
         surface (redo_decoded s) = Some (decode (history s ! nat (historyStep s + 1)))"
    and "contextRef s = None \<Longrightarrow> canvasRef (redo_decoded s) = canvasRef s"
proof -
  let ?s1 = "s\<lparr>historyStep := historyStep s + 1\<rparr>"
  have idx: "js_index (history s) (historyStep s + 1) = Some (history s ! nat (historyStep s + 1))"
    using assms(2,3) by (simp add: js_index_def)
  have redo: "handleRedo s = restoreCanvasState ?s1 (Some (history s ! nat (historyStep s + 1)))"
    using assms(1,2) idx by (simp add: handleRedo_def Let_def)
  have p: "pendingRestores ?s1 = []" using assms(4) by simp
  show "historyStep (redo_decoded s) = historyStep s + 1"
    using assms(1,2) by (simp add: redo_decoded_def restore_onload_frame redo_pointer)
  show "pendingRestores (redo_decoded s) = []"
    unfolding redo_decoded_def redo using restore_then_onload(1) [OF p] .
  show "surface (redo_decoded s) = Some (decode (history s ! nat (historyStep s + 1)))"
    if "contextRef s \<noteq> None" "canvasRef s \<noteq> None"
    unfolding redo_decoded_def redo using restore_then_onload(2) [OF p] that by simp
  show "canvasRef (redo_decoded s) = canvasRef s" if "contextRef s = None"
    unfolding redo_decoded_def redo using restore_then_onload(3) [OF p] that by simp
qed

lemma redo_decoded_funpow:
  assumes "tool s \<noteq> Text" and "historyStep s = - 1" and "pendingRestores s = []"
  shows "k \<le> length (history s) \<Longrightarrow>
   historyStep ((redo_decoded ^^ k) s) = int k - 1
   \<and> history ((redo_decoded ^^ k) s) = history s
   \<and> tool ((redo_decoded ^^ k) s) = tool s
   \<and> pendingRestores ((redo_decoded ^^ k) s) = []
   \<and> (canvasRef ((redo_decoded ^^ k) s) = None) = (canvasRef s = None)
   \<and> (contextRef ((redo_decoded ^^ k) s) = None) = (contextRef s = None)
   \<and> (contextRef s = None \<longrightarrow> canvasRef ((redo_decoded ^^ k) s) = canvasRef s)
   \<and> (0 < k \<longrightarrow> contextRef s \<noteq> None \<longrightarrow> canvasRef s \<noteq> None \<longrightarrow>
        surface ((redo_decoded ^^ k) s) = Some (decode (history s ! (k - 1))))"
proof (induction k)
  case 0
  then show ?case using assms by simp
next
  case (Suc k)
  let ?r = "(redo_decoded ^^ k) s"
  have kle: "k \<le> length (history s)" using Suc.prems by simp
  note ih = Suc.IH [OF kle]
  have IH: "historyStep ?r = int k - 1" "history ?r = history s" "tool ?r = tool s"
    "pendingRestores ?r = []"
    "(canvasRef ?r = None) = (canvasRef s = None)" "(contextRef ?r = None) = (contextRef s = None)"
    "contextRef s = None \<longrightarrow> canvasRef ?r = canvasRef s"
    using ih by blast+
  have lt: "historyStep ?r < int (length (history ?r)) - 1"
    using Suc.prems IH(1,2) by simp
  have t: "tool ?r \<noteq> Text" using IH(3) assms(1) by simp
  have lo: "- 1 \<le> historyStep ?r" using IH(1) by simp
  note fw = redo_decoded_forward [OF t lt lo IH(4)]
  have "historyStep (redo_decoded ?r) = int (Suc k) - 1"
    using fw(1) IH(1) by simp
  moreover have "contextRef s = None \<longrightarrow> canvasRef (redo_decoded ?r) = canvasRef s"
    using fw(4) IH(6,7) by simp
  moreover have "contextRef s \<noteq> None \<longrightarrow> canvasRef s \<noteq> None \<longrightarrow>
        surface (redo_decoded ?r) = Some (decode (history s ! k))"
    using fw(3) IH(1,2,5,6) by simp
  ultimately show ?case
    using fw(2) IH(2,3,5,6) by (simp add: redo_decoded_frame)
qed

section \<open>Completed strokes\<close>

lemma setColor_frame:
  "tool (handleSetColor s c) = tool s"
  "isDrawing (handleSetColor s c) = isDrawing s"
  "canvasRef (handleSetColor s c) = canvasRef s"
  "contextRef (handleSetColor s c) = contextRef s"
  "pendingRestores (handleSetColor s c) = pendingRestores s"
  by (simp_all add: handleSetColor_def Let_def)

lemma moves_frame:
  "history (run s (move_events ms)) = history s
   \<and> historyStep (run s (move_events ms)) = historyStep s
   \<and> tool (run s (move_events ms)) = tool s
   \<and> isDrawing (run s (move_events ms)) = isDrawing s
   \<and> (canvasRef (run s (move_events ms)) = None) = (canvasRef s = None)
   \<and> (contextRef (run s (move_events ms)) = None) = (contextRef s = None)
   \<and> pendingRestores (run s (move_events ms)) = pendingRestores s"
proof (induction ms arbitrary: s)
  case Nil
  then show ?case by (simp add: move_events_def)
next
  case (Cons m ms)
  obtain sh e where m: "m = (sh, e)" by (cases m)
  have "move_events (m # ms) = [ShiftKey sh, PointerMove e] @ move_events ms"
    by (simp add: move_events_def m)
  then show ?case
    using Cons.IH [of "state_of (draw (s\<lparr>isShiftPressed := sh\<rparr>) e)"]
    by (simp add: draw_frame)
qed

lemma stroke_run:
  assumes "stroke_tool st \<noteq> Text" and "canvasRef s \<noteq> None"
  shows "canvasRef (run s (stroke_events st)) \<noteq> None"
    and "history (run s (stroke_events st))
         = js_slice0 (history s) (historyStep s + 1)
           @ [toDataURL (the (canvasRef (run s (stroke_events st))))]"
    and "historyStep (run s (stroke_events st)) = historyStep s + 1"
    and "tool (run s (stroke_events st)) = stroke_tool st"
    and "(contextRef (run s (stroke_events st)) = None) = (contextRef s = None)"
    and "pendingRestores (run s (stroke_events st)) = pendingRestores s"
proof -
  let ?s1 = "handleSetColor (s\<lparr>tool := stroke_tool st, selectedShape := stroke_shape st\<rparr>)
               (stroke_color st)"
  let ?s2 = "state_of (startDrawing ?s1 (stroke_down st))"
  let ?s3 = "run ?s2 (move_events (stroke_moves st))"
  have run_eq: "run s (stroke_events st) = stopDrawing ?s3"
    by (simp add: stroke_events_def)
  have s1: "tool ?s1 = stroke_tool st" "history ?s1 = history s" "historyStep ?s1 = historyStep s"
    "canvasRef ?s1 = canvasRef s" "contextRef ?s1 = contextRef s"
    "pendingRestores ?s1 = pendingRestores s"
    by (simp_all add: setColor_frame setColor_hist)
  have s2: "tool ?s2 = stroke_tool st" "history ?s2 = history s" "historyStep ?s2 = historyStep s"
    "canvasRef ?s2 = canvasRef s" "(contextRef ?s2 = None) = (contextRef s = None)" "isDrawing ?s2"
    "pendingRestores ?s2 = pendingRestores s"
    using assms(1) s1 by (simp_all add: startDrawing_frame)
  have s3: "tool ?s3 = stroke_tool st" "history ?s3 = history s" "historyStep ?s3 = historyStep s"
    "canvasRef ?s3 \<noteq> None" "(contextRef ?s3 = None) = (contextRef s = None)" "isDrawing ?s3"
    "pendingRestores ?s3 = pendingRestores s"
    using moves_frame [of ?s2 "stroke_moves st"] s2 assms(2) by simp_all
  from s3(4) obtain cv where cv: "canvasRef ?s3 = Some cv"
    by (cases "canvasRef ?s3") simp_all
  note push = stop_push [OF s3(6) cv]
  show "canvasRef (run s (stroke_events st)) \<noteq> None"
    unfolding run_eq using cv by (simp add: stop_frame)
  show "history (run s (stroke_events st))
         = js_slice0 (history s) (historyStep s + 1)
           @ [toDataURL (the (canvasRef (run s (stroke_events st))))]"
    unfolding run_eq using push cv s3(2,3) by (simp add: stop_frame)
  show "historyStep (run s (stroke_events st)) = historyStep s + 1"
    unfolding run_eq using push s3(3) by simp
  show "tool (run s (stroke_events st)) = stroke_tool st"
    unfolding run_eq using s3(1) by (simp add: stop_frame)
  show "(contextRef (run s (stroke_events st)) = None) = (contextRef s = None)"
    unfolding run_eq using s3(5) by (simp add: stop_frame)
  show "pendingRestores (run s (stroke_events st)) = pendingRestores s"
    unfolding run_eq using s3(7) by (simp add: stop_frame)
qed

lemma strokes_run:
  assumes "\<forall>st \<in> set sts. stroke_tool st \<noteq> Text"
    and "canvasRef s \<noteq> None"
    and "historyStep s = int (length (history s)) - 1"
  shows "historyStep (run s (concat (map stroke_events sts)))
           = int (length (history (run s (concat (map stroke_events sts))))) - 1
     \<and> length (history (run s (concat (map stroke_events sts)))) = length (history s) + length sts
     \<and> canvasRef (run s (concat (map stroke_events sts))) \<noteq> None
     \<and> (contextRef (run s (concat (map stroke_events sts))) = None) = (contextRef s = None)
     \<and> pendingRestores (run s (concat (map stroke_events sts))) = pendingRestores s
     \<and> (sts \<noteq> [] \<longrightarrow>
          tool (run s (concat (map stroke_events sts))) \<noteq> Text
          \<and> surface (run s (concat (map stroke_events sts)))
              = Some (decode (last (history (run s (concat (map stroke_events sts)))))))"
  using assms
proof (induction sts arbitrary: s rule: rev_induct)
  case Nil
  then show ?case by simp
next
  case (snoc st sts)
  let ?m = "run s (concat (map stroke_events sts))"
  let ?r = "run ?m (stroke_events st)"
  have p1: "\<forall>st \<in> set sts. stroke_tool st \<noteq> Text"
    using snoc.prems(1) by simp
  note ih = snoc.IH [OF p1 snoc.prems(2) snoc.prems(3)]
  have IH: "historyStep ?m = int (length (history ?m)) - 1"
    "length (history ?m) = length (history s) + length sts"
    "canvasRef ?m \<noteq> None" "(contextRef ?m = None) = (contextRef s = None)"
    "pendingRestores ?m = pendingRestores s"
    using ih by blast+
  have t: "stroke_tool st \<noteq> Text" using snoc.prems(1) by simp
  note sr = stroke_run [OF t IH(3)]
  have run_eq: "run s (concat (map stroke_events (sts @ [st]))) = ?r"
    by simp
  have len: "historyStep ?m + 1 = int (length (history ?m))"
    using IH(1) by simp
  have h: "history ?r = history ?m @ [toDataURL (the (canvasRef ?r))]"
    using sr(2) by (simp add: len js_slice0_take)
  have surf: "surface ?r = Some (decode (last (history ?r)))"
    using sr(1) by (subst h) (auto simp: surface_def toDataURL_def)
  have "historyStep ?r = int (length (history ?r)) - 1"
    using sr(3) len by (subst h) simp
  moreover have "length (history ?r) = length (history s) + length (sts @ [st])"
    using IH(2) by (subst h) simp
  moreover have "(contextRef ?r = None) = (contextRef s = None)"
    using sr(5) IH(4) by simp
  moreover have "pendingRestores ?r = pendingRestores s"
    using sr(6) IH(5) by simp
  moreover have "tool ?r \<noteq> Text"
    using sr(4) t by simp
  ultimately show ?case
    unfolding run_eq using sr(1) surf by blast
qed

text \<open>
  From an empty history on a canvas with no restore pending, after any \<open>N\<close>
  completed strokes, \<open>N\<close> undos followed by \<open>N\<close> redos, each decoded before the
  next click, leave the surface with the pixels it had after the last stroke, the pointer
  at \<open>N - 1\<close> and the snapshots as they were.
\<close>

lemma undo_all_then_redo_all_decoded:
  assumes "history s0 = []" and "historyStep s0 = - 1"
    and "canvasRef s0 \<noteq> None" and "pendingRestores s0 = []"
    and "\<forall>st \<in> set strokes. stroke_tool st \<noteq> Text"
  shows "surface ((redo_decoded ^^ length strokes) ((undo_decoded ^^ length strokes)
            (run s0 (concat (map stroke_events strokes)))))
          = surface (run s0 (concat (map stroke_events strokes)))
     \<and> historyStep ((redo_decoded ^^ length strokes) ((undo_decoded ^^ length strokes)
            (run s0 (concat (map stroke_events strokes)))))
          = int (length strokes) - 1
     \<and> history ((redo_decoded ^^ length strokes) ((undo_decoded ^^ length strokes)
            (run s0 (concat (map stroke_events strokes)))))
          = history (run s0 (concat (map stroke_events strokes)))
     \<and> pendingRestores ((redo_decoded ^^ length strokes) ((undo_decoded ^^ length strokes)
            (run s0 (concat (map stroke_events strokes))))) = []"
proof (cases "strokes = []")
  case True
  then show ?thesis using assms(2,4) by simp
next
  case False
  let ?n = "length strokes"
  let ?m = "run s0 (concat (map stroke_events strokes))"
  let ?u = "(undo_decoded ^^ ?n) ?m"
  let ?r = "(redo_decoded ^^ ?n) ?u"
  have tip: "historyStep s0 = int (length (history s0)) - 1"
    using assms(1,2) by simp
  note sr = strokes_run [OF assms(5) assms(3) tip]
  have m: "historyStep ?m = int ?n - 1" "length (history ?m) = ?n" "canvasRef ?m \<noteq> None"
    "tool ?m \<noteq> Text" "surface ?m = Some (decode (last (history ?m)))"
    "pendingRestores ?m = []"
    using sr False assms(1,4) by simp_all
  have lo: "- 1 \<le> historyStep ?m" using m(1) by simp
  note uf = undo_decoded_funpow [OF m(4) lo m(6), where k = ?n]
  have u: "historyStep ?u = - 1" "history ?u = history ?m" "tool ?u \<noteq> Text"
    "pendingRestores ?u = []"
    "canvasRef ?u \<noteq> None" "(contextRef ?u = None) = (contextRef ?m = None)"
    "contextRef ?m = None \<longrightarrow> canvasRef ?u = canvasRef ?m"
    using uf m by simp_all
  have le: "?n \<le> length (history ?u)" using u(2) m(2) by simp
  note rf = redo_decoded_funpow [OF u(3) u(1) u(4) le]
  have r: "historyStep ?r = int ?n - 1" "history ?r = history ?m" "pendingRestores ?r = []"
    "contextRef ?u = None \<longrightarrow> canvasRef ?r = canvasRef ?u"
    using rf u(2) by simp_all
  have pos: "0 < ?n" using False by simp
  have ne: "history ?m \<noteq> []" using m(2) pos by auto
  have lastm: "last (history ?m) = history ?m ! (?n - 1)"
    using last_conv_nth [OF ne] m(2) by simp
  have "surface ?r = surface ?m"
  proof (cases "contextRef ?m = None")
    case True
    then have "canvasRef ?r = canvasRef ?m"
      using r(4) u(6,7) by simp
    then show ?thesis by (simp add: surface_def)
  next
    case False
    then have c: "contextRef ?u \<noteq> None" using u(6) by simp
    have "surface ?r = Some (decode (history ?m ! (?n - 1)))"
      using rf u(2,5) c pos by simp
    then show ?thesis using m(5) lastm by simp
  qed
  then show ?thesis using r by simp
qed

lemma pen_then_eraser:
  "surface (run example_editor (stroke_events pen_stroke @ stroke_events eraser_stroke))
     = Some pen_line_erased"
  "history (run example_editor (stroke_events pen_stroke @ stroke_events eraser_stroke))
     = [PNG pen_line, PNG pen_line_erased]"
  "historyStep (run example_editor (stroke_events pen_stroke @ stroke_events eraser_stroke)) = 1"
  "tool (run example_editor (stroke_events pen_stroke @ stroke_events eraser_stroke)) = Eraser"
  "pendingRestores (run example_editor (stroke_events pen_stroke @ stroke_events eraser_stroke)) = []"
  "contextRef (run example_editor (stroke_events pen_stroke @ stroke_events eraser_stroke)) \<noteq> None"
  by (simp_all add: stroke_events_def move_events_def pen_stroke_def eraser_stroke_def
      pen_line_def pen_line_erased_def
      initial_editor_def example_editor_def example_canvas_def example_context_def
      handleSetColor_def PRESET_COLORS_def
      startDrawing_def draw_def getCoordinates_def js_sub_def preview_path_def
      stopDrawing_def saveCanvasToHistory_def js_slice0_def toDataURL_def
      Let_def on_bitmap_def ctx_stroke_def ctx_closePath_def surface_def)

text \<open>
  Claim C1. The round trip does not hold for every run of the editor. After the two
  strokes of the example the surface shows the pen line with its middle erased, and the
  pointer is 1. Two undos, each decoded in time, and two redos of which the second is
  clicked before the first restore is decoded, leave the pointer at 1 and nothing pending,
  but the surface is the second snapshot painted over the first: where the eraser had
  removed the line, the line of the first snapshot shows.
\<close>

theorem overlapping_redos_paint_over_each_other:
  "surface (run example_editor (stroke_events pen_stroke @ stroke_events eraser_stroke))
     = Some pen_line_erased
   \<and> historyStep (run example_editor (stroke_events pen_stroke @ stroke_events eraser_stroke)) = 1
   \<and> surface (run (run example_editor (stroke_events pen_stroke @ stroke_events eraser_stroke))
                 overlapping_redo_events)
       = Some (Composite pen_line pen_line_erased 1 SourceOver)
   \<and> surface (run (run example_editor (stroke_events pen_stroke @ stroke_events eraser_stroke))
                 overlapping_redo_events)
       \<noteq> surface (run example_editor (stroke_events pen_stroke @ stroke_events eraser_stroke))
   \<and> historyStep (run (run example_editor (stroke_events pen_stroke @ stroke_events eraser_stroke))
                     overlapping_redo_events) = 1
   \<and> pendingRestores (run (run example_editor (stroke_events pen_stroke @ stroke_events eraser_stroke))
                         overlapping_redo_events) = []"
proof -
  let ?m = "run example_editor (stroke_events pen_stroke @ stroke_events eraser_stroke)"
  obtain cv where cv: "canvasRef ?m = Some cv" "bitmap cv = pen_line_erased"
    using pen_then_eraser(1) by (cases "canvasRef ?m") (simp_all add: surface_def)
  obtain ctx where ctx: "contextRef ?m = Some ctx"
    using pen_then_eraser(6) by (cases "contextRef ?m") simp_all
  have after: "surface (run ?m overlapping_redo_events)
                 = Some (Composite pen_line pen_line_erased 1 SourceOver)"
    "historyStep (run ?m overlapping_redo_events) = 1"
    "pendingRestores (run ?m overlapping_redo_events) = []"
    using cv ctx pen_then_eraser(2,3,4,5)
    by (simp_all add: overlapping_redo_events_def handleUndo_def handleRedo_def
        restoreCanvasState_def restore_onload_def remove_nth_def js_index_def Let_def
        on_bitmap_def ctx_drawImage_def surface_def pen_line_def pen_line_erased_def)
  have "Composite pen_line pen_line_erased 1 SourceOver \<noteq> pen_line_erased"
    by (simp add: pen_line_erased_def)
  then show ?thesis
    using after pen_then_eraser(1,3) by simp
qed

section \<open>The pointer invariant and the push\<close>

lemma undo_history_frame:
  "historyStep s = - 1 \<Longrightarrow>
   history (handleUndo s) = history s \<and> historyStep (handleUndo s) = - 1
   \<and> canvasRef (handleUndo s) = canvasRef s \<and> contextRef (handleUndo s) = contextRef s"
  by (simp add: handleUndo_def execCommand_def)

lemma redo_history_frame:
  "historyStep s = int (length (history s)) - 1 \<Longrightarrow>
   history (handleRedo s) = history s \<and> historyStep (handleRedo s) = historyStep s
   \<and> canvasRef (handleRedo s) = canvasRef s \<and> contextRef (handleRedo s) = contextRef s"
  by (simp add: handleRedo_def execCommand_def)

lemma undo_at_zero_general:
  "historyStep s = 0 \<Longrightarrow> tool s \<noteq> Text \<Longrightarrow>
   historyStep (handleUndo s) = - 1 \<and> history (handleUndo s) = history s
   \<and> pendingRestores (handleUndo s) = pendingRestores s"
  by (simp add: handleUndo_def split: option.splits)

lemma undo_at_zero_surface:
  "historyStep s = 0 \<Longrightarrow> tool s \<noteq> Text \<Longrightarrow> contextRef s \<noteq> None \<Longrightarrow> canvasRef s \<noteq> None \<Longrightarrow>
   surface (handleUndo s) = Some Blank"
  by (auto simp: handleUndo_def surface_def split: option.splits)

text \<open>
  From the initial state, as long as no inserted picture has been decoded, the pointer
  lies between \<open>-1\<close> and the last index of the history.
\<close>

lemma pointer_bounds_without_insertion:
  assumes "\<And>k. ImageDecoded k \<notin> set evs"
  shows "hist_inv (run (initial_editor pg dark cv ctx) evs)"
proof -
  have "hist_inv (initial_editor pg dark cv ctx)"
    by (simp add: hist_inv_def initial_editor_def)
  then show ?thesis
    using assms by (rule run_inv)
qed

text \<open>
  A push that cuts at the pointer of the state in which it runs keeps the snapshots at the
  indices \<open>0 .. historyStep\<close>, appends the snapshot of the canvas and leaves the
  pointer on the new last index. This is the push of \<open>stopDrawing\<close>: from the history
  \<open>[s0, s1, s2]\<close> at pointer 2, an undo and a completed stroke give
  \<open>[s0, s1, s3]\<close> at pointer 2.
\<close>

lemma push_at_current_pointer:
  assumes "hist_inv s" and "canvasRef s = Some cv"
  shows "history (saveCanvasToHistory (historyStep s) s)
           = take (nat (historyStep s + 1)) (history s) @ [toDataURL cv]"
    and "historyStep (saveCanvasToHistory (historyStep s) s)
           = int (length (history (saveCanvasToHistory (historyStep s) s))) - 1"
  using assms by (auto simp: save_history js_slice0_take hist_inv_def)

lemma stroke_after_undo:
  assumes "tool t \<noteq> Text" and "history t = [s0, s1, s2]" and "historyStep t = 2"
    and "canvasRef t \<noteq> None" and "stroke_tool st \<noteq> Text"
  shows "historyStep (handleUndo t) = 1"
    and "history (run (handleUndo t) (stroke_events st))
           = [s0, s1, toDataURL (the (canvasRef (run (handleUndo t) (stroke_events st))))]"
    and "historyStep (run (handleUndo t) (stroke_events st)) = 2"
proof -
  let ?u = "handleUndo t"
  have u: "historyStep ?u = 1" "history ?u = [s0, s1, s2]" "canvasRef ?u \<noteq> None"
    using assms(1-4) by (simp_all add: undo_pointer undo_frame)
  show "historyStep ?u = 1" by (rule u(1))
  show "history (run ?u (stroke_events st))
           = [s0, s1, toDataURL (the (canvasRef (run ?u (stroke_events st))))]"
    using stroke_run(2) [OF assms(5) u(3)] u(1,2) by (simp add: js_slice0_take)
  show "historyStep (run ?u (stroke_events st)) = 2"
    using stroke_run(3) [OF assms(5) u(3)] u(1) by simp
qed

text \<open>
  The push of an inserted picture cuts at the pointer of the rendering in which the file
  was chosen and increments the pointer of the state in which the decoder calls back.
\<close>

lemma insertion_onload_push:
  assumes "canvasRef s = Some cv" and "contextRef s = Some ctx"
    and "k < length (pendingInsertions s)" and "pendingInsertions s ! k = (src, closureStep)"
  shows "history (insertion_onload s k)
           = js_slice0 (history s) (closureStep + 1) @ [PNG (Placed (bitmap cv) src 50 50 200 200)]"
    and "historyStep (insertion_onload s k) = historyStep s + 1"
  using assms
  by (simp_all add: insertion_onload_def saveCanvasToHistory_def Let_def on_bitmap_def toDataURL_def)

lemma three_strokes:
  "history (run example_editor three_stroke_events)
     = [PNG (Stroked Blank ''#135bec'' 3 1 SourceOver [MoveTo 20 20, LineTo 40 40]),
        PNG (Stroked (Stroked Blank ''#135bec'' 3 1 SourceOver [MoveTo 20 20, LineTo 40 40])
               ''#135bec'' 3 1 SourceOver [MoveTo 20 60, LineTo 40 80]),
        PNG (Stroked
               (Stroked (Stroked Blank ''#135bec'' 3 1 SourceOver [MoveTo 20 20, LineTo 40 40])
                  ''#135bec'' 3 1 SourceOver [MoveTo 20 60, LineTo 40 80])
               ''#135bec'' 3 1 SourceOver [MoveTo 20 100, LineTo 40 120])]"
  "historyStep (run example_editor three_stroke_events) = 2"
  "tool (run example_editor three_stroke_events) = Pen"
  "pendingRestores (run example_editor three_stroke_events) = []"
  "pendingInsertions (run example_editor three_stroke_events) = []"
  "contextRef (run example_editor three_stroke_events) \<noteq> None"
  "canvasRef (run example_editor three_stroke_events) \<noteq> None"
  by (simp_all add: three_stroke_events_def
      initial_editor_def example_editor_def example_canvas_def example_context_def
      startDrawing_def draw_def getCoordinates_def js_sub_def
      stopDrawing_def saveCanvasToHistory_def js_slice0_def toDataURL_def
      Let_def on_bitmap_def ctx_stroke_def ctx_closePath_def)

text \<open>
  Claim C2. The push of an inserted picture does not discard the snapshots after the
  pointer. After three pen strokes the history holds three snapshots and the pointer is 2.
  A file is chosen, the last stroke is undone (pointer 1, the second snapshot on the
  surface), and then the picture is decoded: the history is the three snapshots followed
  by the new one, four in all, and the pointer is 2, on the snapshot that was undone and
  not on the new last index.
\<close>

theorem insertion_after_undo_keeps_redo_branch:
  "length (history (run example_editor three_stroke_events)) = 3
   \<and> historyStep (run example_editor three_stroke_events) = 2
   \<and> historyStep (run (run example_editor three_stroke_events) [InsertImage (Some ''photo''), Undo]) = 1
   \<and> history (run (run example_editor three_stroke_events) insertion_after_undo_events)
       = history (run example_editor three_stroke_events)
         @ [PNG (Placed (decode (history (run example_editor three_stroke_events) ! 1))
                   ''photo'' 50 50 200 200)]
   \<and> length (history (run (run example_editor three_stroke_events) insertion_after_undo_events)) = 4
   \<and> historyStep (run (run example_editor three_stroke_events) insertion_after_undo_events) = 2"
proof -
  let ?m = "run example_editor three_stroke_events"
  obtain cv where cv: "canvasRef ?m = Some cv"
    using three_strokes(7) by (cases "canvasRef ?m") simp_all
  obtain ctx where ctx: "contextRef ?m = Some ctx"
    using three_strokes(6) by (cases "contextRef ?m") simp_all
  have undone: "historyStep (run ?m [InsertImage (Some ''photo''), Undo]) = 1"
    using cv ctx three_strokes(1-5)
    by (simp add: handleImageUpload_def handleUndo_def restoreCanvasState_def js_index_def Let_def)
  have after: "history (run ?m insertion_after_undo_events)
                 = history ?m @ [PNG (Placed (decode (history ?m ! 1)) ''photo'' 50 50 200 200)]"
    "historyStep (run ?m insertion_after_undo_events) = 2"
    using cv ctx three_strokes(1-5)
    by (simp_all add: insertion_after_undo_events_def handleImageUpload_def handleUndo_def
        restoreCanvasState_def restore_onload_def insertion_onload_def remove_nth_def
        saveCanvasToHistory_def js_index_def js_slice0_def toDataURL_def Let_def
        on_bitmap_def ctx_drawImage_def)
  show ?thesis
    using undone after three_strokes(1,2) by simp
qed

text \<open>
  Claim C3. The pointer does not stay within its bounds in every reachable state. A file
  is chosen on the empty surface and a pen stroke is completed before the picture is
  decoded: until then the pointer is within its bounds, and after the callback of the
  decoder the history holds one snapshot, the stroke with the picture over it, and the
  pointer is 1, beyond the last index.
\<close>

theorem insertion_after_stroke_leaves_pointer_out_of_bounds:
  "hist_inv (run example_editor (butlast stale_insertion_events))
   \<and> history (run example_editor stale_insertion_events)
       = [PNG (Placed (Stroked Blank ''#135bec'' 3 1 SourceOver [MoveTo 20 20, LineTo 40 40])
                 ''photo'' 50 50 200 200)]
   \<and> historyStep (run example_editor stale_insertion_events) = 1
   \<and> \<not> hist_inv (run example_editor stale_insertion_events)"
proof -
  have before: "hist_inv (run example_editor (butlast stale_insertion_events))"
    by (simp add: stale_insertion_events_def hist_inv_def
        initial_editor_def example_editor_def example_canvas_def example_context_def
        handleImageUpload_def startDrawing_def draw_def getCoordinates_def js_sub_def
        stopDrawing_def saveCanvasToHistory_def js_slice0_def toDataURL_def
        Let_def on_bitmap_def ctx_stroke_def ctx_closePath_def)
  have after: "history (run example_editor stale_insertion_events)
       = [PNG (Placed (Stroked Blank ''#135bec'' 3 1 SourceOver [MoveTo 20 20, LineTo 40 40])
                 ''photo'' 50 50 200 200)]"
    "historyStep (run example_editor stale_insertion_events) = 1"
    by (simp_all add: stale_insertion_events_def
        initial_editor_def example_editor_def example_canvas_def example_context_def
        handleImageUpload_def insertion_onload_def remove_nth_def
        startDrawing_def draw_def getCoordinates_def js_sub_def
        stopDrawing_def saveCanvasToHistory_def js_slice0_def toDataURL_def
        Let_def on_bitmap_def ctx_stroke_def ctx_closePath_def)
  then have "\<not> hist_inv (run example_editor stale_insertion_events)"
    by (simp add: hist_inv_def)
  then show ?thesis
    using before after by simp
qed

section \<open>Previews\<close>

lemma geometry_bitmap [simp]: "geometry (cv\<lparr>bitmap := b\<rparr>) = geometry cv"
  by (simp add: geometry_def)

lemma geometry_on_bitmap [simp]:
  "map_option geometry (on_bitmap f c) = map_option geometry c"
  by (cases c) (simp_all add: on_bitmap_def)

lemma getCoordinates_geometry:
  "map_option geometry (canvasRef s) = map_option geometry (canvasRef s') \<Longrightarrow>
   getCoordinates s e = getCoordinates s' e"
  by (cases "canvasRef s"; cases "canvasRef s'")
     (simp_all add: getCoordinates_def geometry_def Let_def
        split: pointer_event.splits list.splits)

lemma sum_squares_not_negative: "((a::real) * a + b * b < 0) = False"
  by (simp add: not_less)

lemma preview_path_finite:
  "preview_path t sh (Fin sx) (Fin sy) (Fin x) (Fin y) = Inr (preview_primitive t sh sx sy x y)"
  by (cases sh) (simp_all add: preview_path_def preview_primitive_def js_sub_def Let_def
      ctx_closePath_def sum_squares_not_negative)

lemma draw_keeps:
  "tool (state_of (draw s e)) = tool s"
  "selectedShape (state_of (draw s e)) = selectedShape s"
  "color (state_of (draw s e)) = color s"
  "isDrawing (state_of (draw s e)) = isDrawing s"
  "startPos (state_of (draw s e)) = startPos s"
  "snapshot (state_of (draw s e)) = snapshot s"
  "isShiftPressed (state_of (draw s e)) = isShiftPressed s"
  "map_option geometry (canvasRef (state_of (draw s e))) = map_option geometry (canvasRef s)"
  by (auto simp: draw_def Let_def split: sum.splits option.splits prod.splits)

lemma moves_keep:
  "tool (run s (move_events ms)) = tool s
   \<and> selectedShape (run s (move_events ms)) = selectedShape s
   \<and> color (run s (move_events ms)) = color s
   \<and> isDrawing (run s (move_events ms)) = isDrawing s
   \<and> startPos (run s (move_events ms)) = startPos s
   \<and> snapshot (run s (move_events ms)) = snapshot s
   \<and> map_option geometry (canvasRef (run s (move_events ms))) = map_option geometry (canvasRef s)"
proof (induction ms arbitrary: s)
  case Nil
  then show ?case by (simp add: move_events_def)
next
  case (Cons m ms)
  obtain sh e where m: "m = (sh, e)" by (cases m)
  have "move_events (m # ms) = [ShiftKey sh, PointerMove e] @ move_events ms"
    by (simp add: move_events_def m)
  then show ?case
    using Cons.IH [of "state_of (draw (s\<lparr>isShiftPressed := sh\<rparr>) e)"]
    by (simp add: draw_keeps)
qed

lemma preview_sample:
  assumes "isDrawing s" and "contextRef s = Some ctx" and "canvasRef s = Some cv"
    and "startPos s = Some (Fin sx, Fin sy)" and "snapshot s = Some snap"
    and "getCoordinates s e = Inr (Fin x, Fin y)"
    and "tool s = Shape \<or> (tool s \<noteq> Text \<and> tool s \<noteq> Eraser \<and> isShiftPressed s)"
  shows "surface (state_of (draw s e))
     = Some (Stroked snap (color s) (fst (preview_style (tool s))) (fst (snd (preview_style (tool s))))
               (snd (snd (preview_style (tool s))))
               (preview_primitive (tool s) (selectedShape s) sx sy x y))"
  using assms
  by (cases "tool s")
     (auto simp: draw_def Let_def surface_def on_bitmap_def ctx_stroke_def preview_path_finite)

lemma startDrawing_begins:
  assumes "tool s \<noteq> Text" and "contextRef s = Some ctx" and "canvasRef s = Some cv"
    and "canvas_width cv \<noteq> 0" and "canvas_height cv \<noteq> 0"
    and "getCoordinates s e = Inr (px, py)"
  shows "isDrawing (state_of (startDrawing s e))"
    and "startPos (state_of (startDrawing s e)) = Some (px, py)"
    and "snapshot (state_of (startDrawing s e)) = Some (bitmap cv)"
    and "canvasRef (state_of (startDrawing s e)) = Some cv"
    and "contextRef (state_of (startDrawing s e)) \<noteq> None"
    and "tool (state_of (startDrawing s e)) = tool s"
    and "selectedShape (state_of (startDrawing s e)) = selectedShape s"
    and "color (state_of (startDrawing s e)) = color s"
proof -
  have g: "getCoordinates (s\<lparr>isDrawing := True\<rparr>) e = Inr (px, py)"
    using assms(6) by (simp add: getCoordinates_def)
  show "isDrawing (state_of (startDrawing s e))"
    "startPos (state_of (startDrawing s e)) = Some (px, py)"
    "snapshot (state_of (startDrawing s e)) = Some (bitmap cv)"
    "canvasRef (state_of (startDrawing s e)) = Some cv"
    "contextRef (state_of (startDrawing s e)) \<noteq> None"
    "tool (state_of (startDrawing s e)) = tool s"
    "selectedShape (state_of (startDrawing s e)) = selectedShape s"
    "color (state_of (startDrawing s e)) = color s"
    using assms(1-5) g by (simp_all add: startDrawing_def Let_def)
qed

lemma preview_after_moves:
  assumes "contextRef s0 = Some ctx0" and "canvasRef s0 = Some cv0"
    and "canvas_width cv0 \<noteq> 0" and "canvas_height cv0 \<noteq> 0"
    and "getCoordinates s0 e0 = Inr (Fin sx, Fin sy)"
    and "getCoordinates s0 e = Inr (Fin x, Fin y)"
    and "tool s0 = Shape \<or> (tool s0 \<noteq> Text \<and> tool s0 \<noteq> Eraser \<and> sh)"
  shows "surface (state_of (draw ((run (state_of (startDrawing s0 e0)) (move_events ms))
                                    \<lparr>isShiftPressed := sh\<rparr>) e))
     = Some (Stroked (bitmap cv0) (color s0)
               (fst (preview_style (tool s0))) (fst (snd (preview_style (tool s0))))
               (snd (snd (preview_style (tool s0))))
               (preview_primitive (tool s0) (selectedShape s0) sx sy x y))"
proof -
  let ?s1 = "state_of (startDrawing s0 e0)"
  let ?sN = "run ?s1 (move_events ms)"
  let ?s = "?sN\<lparr>isShiftPressed := sh\<rparr>"
  have t: "tool s0 \<noteq> Text" using assms(7) by auto
  note b = startDrawing_begins [OF t assms(1,2,3,4,5)]
  note k = moves_keep [of ?s1 ms]
  note f = moves_frame [of ?s1 ms]
  have geo: "map_option geometry (canvasRef ?s) = map_option geometry (canvasRef s0)"
    using k b(4) assms(2) by simp
  have coords: "getCoordinates ?s e = Inr (Fin x, Fin y)"
    using getCoordinates_geometry [OF geo] assms(6) by simp
  obtain ctx where ctx: "contextRef ?s = Some ctx"
    using f b(5) by (cases "contextRef ?sN") simp_all
  obtain cv where cv: "canvasRef ?s = Some cv"
    using f b(4) by (cases "canvasRef ?sN") simp_all
  have st: "isDrawing ?s" "startPos ?s = Some (Fin sx, Fin sy)" "snapshot ?s = Some (bitmap cv0)"
    "tool ?s = tool s0" "selectedShape ?s = selectedShape s0" "color ?s = color s0"
    "isShiftPressed ?s = sh"
    using k b by simp_all
  have mode: "tool ?s = Shape \<or> (tool ?s \<noteq> Text \<and> tool ?s \<noteq> Eraser \<and> isShiftPressed ?s)"
    using assms(7) st(4,7) by simp
  show ?thesis
    using preview_sample [OF st(1) ctx cv st(2) st(3) coords mode] st(4,5,6) by simp
qed


text \<open>
  Claim C5, amended. In a stroke begun on an initialised surface, at every move sample
  taken with the shape tool, or with the Shift key held and a freehand tool other than the
  eraser, and whatever the samples before it were, the surface after the sample is the
  snapshot captured when the stroke began with exactly one preview primitive from the start
  coordinate to the sample's coordinate painted over it, in the pen of the tool.
\<close>

theorem preview_sample_restores_then_paints_one:
  assumes "contextRef s0 = Some ctx0" and "canvasRef s0 = Some cv0"
    and "canvas_width cv0 \<noteq> 0" and "canvas_height cv0 \<noteq> 0"
    and "getCoordinates s0 e0 = Inr (Fin sx, Fin sy)"
    and "getCoordinates s0 e = Inr (Fin x, Fin y)"
    and "tool s0 = Shape \<or> (tool s0 \<noteq> Text \<and> tool s0 \<noteq> Eraser \<and> sh)"
  shows "snapshot (state_of (startDrawing s0 e0)) = surface s0
     \<and> snapshot ((run (state_of (startDrawing s0 e0)) (move_events ms))\<lparr>isShiftPressed := sh\<rparr>)
         = surface s0
     \<and> surface (state_of (draw ((run (state_of (startDrawing s0 e0)) (move_events ms))
                                    \<lparr>isShiftPressed := sh\<rparr>) e))
         = Some (Stroked (bitmap cv0) (color s0)
               (fst (preview_style (tool s0))) (fst (snd (preview_style (tool s0))))
               (snd (snd (preview_style (tool s0))))
               (preview_primitive (tool s0) (selectedShape s0) sx sy x y))"
proof -
  have t: "tool s0 \<noteq> Text" using assms(7) by auto
  note b = startDrawing_begins [OF t assms(1,2,3,4,5)]
  have "snapshot (state_of (startDrawing s0 e0)) = surface s0"
    using b(3) assms(2) by (simp add: surface_def)
  moreover have "snapshot ((run (state_of (startDrawing s0 e0)) (move_events ms))\<lparr>isShiftPressed := sh\<rparr>)
         = surface s0"
    using moves_keep [of "state_of (startDrawing s0 e0)" ms] b(3) assms(2) by (simp add: surface_def)
  ultimately show ?thesis
    using preview_after_moves [OF assms] by simp
qed

theorem preview_sample_witness:
  "contextRef (example_editor\<lparr>tool := Pen\<rparr>) = Some example_context
   \<and> canvasRef (example_editor\<lparr>tool := Pen\<rparr>) = Some example_canvas
   \<and> canvas_width example_canvas \<noteq> 0 \<and> canvas_height example_canvas \<noteq> 0
   \<and> getCoordinates (example_editor\<lparr>tool := Pen\<rparr>) (MouseEvent 30 110) = Inr (Fin 20, Fin 20)
   \<and> getCoordinates (example_editor\<lparr>tool := Pen\<rparr>) (MouseEvent 50 150) = Inr (Fin 60, Fin 100)
   \<and> tool (example_editor\<lparr>tool := Pen\<rparr>) = Pen
   \<and> surface (state_of (draw ((run (state_of (startDrawing (example_editor\<lparr>tool := Pen\<rparr>)
                                               (MouseEvent 30 110)))
                                   (move_events [(False, MouseEvent 40 120), (True, MouseEvent 45 130)]))
                                \<lparr>isShiftPressed := True\<rparr>) (MouseEvent 50 150)))
       = Some (Stroked Blank ''#135bec'' 3 1 SourceOver [MoveTo 20 20, LineTo 60 100])"
proof -
  let ?s0 = "example_editor\<lparr>tool := Pen\<rparr>"
  have a: "contextRef ?s0 = Some example_context" "canvasRef ?s0 = Some example_canvas"
    "canvas_width example_canvas \<noteq> 0" "canvas_height example_canvas \<noteq> 0"
    "getCoordinates ?s0 (MouseEvent 30 110) = Inr (Fin 20, Fin 20)"
    "getCoordinates ?s0 (MouseEvent 50 150) = Inr (Fin 60, Fin 100)"
    by (simp_all add: example_editor_def initial_editor_def example_canvas_def getCoordinates_def
        js_sub_def)
  have m: "tool ?s0 = Shape \<or> (tool ?s0 \<noteq> Text \<and> tool ?s0 \<noteq> Eraser \<and> True)"
    by simp
  have v: "tool ?s0 = Pen" "color ?s0 = ''#135bec''" "selectedShape ?s0 = Rect"
    "bitmap example_canvas = Blank"
    by (simp_all add: example_editor_def initial_editor_def example_canvas_def)
  show ?thesis
    using preview_sample_restores_then_paints_one [OF a m,
        of "[(False, MouseEvent 40 120), (True, MouseEvent 45 130)]"] a v
    by (simp add: preview_primitive_def)
qed

text \<open>
  With the eraser a sample extends the current path and paints it over what is there,
  whether the Shift key is held or not.
\<close>

lemma eraser_sample_ignores_shift:
  assumes "tool s = Eraser" and "isDrawing s" and "contextRef s = Some ctx"
    and "canvasRef s = Some cv" and "startPos s = Some p"
    and "getCoordinates s e = Inr (Fin x, Fin y)"
  shows "surface (state_of (draw s e))
     = Some (Stroked (bitmap cv) (if isDarkMode s then ''#1c222e'' else ''white'') 40 1
               DestinationOut (path ctx @ [LineTo x y]))"
  using assms
  by (cases p) (simp add: draw_def Let_def surface_def on_bitmap_def ctx_stroke_def)

text \<open>
  Claim C5 as stated fails for the eraser, which is a freehand tool: with the Shift key
  held, the second sample of an eraser stroke paints over the result of the first sample,
  not over the snapshot, and its path is the whole trail, not one segment from the start.
\<close>

theorem eraser_with_shift_paints_incrementally:
  "tool (run example_editor eraser_shift_events) = Eraser
   \<and> isShiftPressed (run example_editor eraser_shift_events)
   \<and> isDrawing (run example_editor eraser_shift_events)
   \<and> startPos (run example_editor eraser_shift_events) = Some (Fin 20, Fin 20)
   \<and> snapshot (run example_editor eraser_shift_events) = Some Blank
   \<and> getCoordinates (run example_editor eraser_shift_events) (MouseEvent 50 150)
       = Inr (Fin 60, Fin 100)
   \<and> surface (run example_editor eraser_shift_events)
       = Some (Stroked (Stroked Blank ''white'' 40 1 DestinationOut [MoveTo 20 20, LineTo 40 40])
                 ''white'' 40 1 DestinationOut [MoveTo 20 20, LineTo 40 40, LineTo 60 100])
   \<and> map_option underlay (surface (run example_editor eraser_shift_events))
       \<noteq> snapshot (run example_editor eraser_shift_events)
   \<and> map_option painted_path (surface (run example_editor eraser_shift_events))
       \<noteq> Some (preview_primitive Eraser Rect 20 20 60 100)"
  by (simp add: eraser_shift_events_def example_editor_def initial_editor_def example_canvas_def
      example_context_def startDrawing_def draw_def getCoordinates_def js_sub_def Let_def
      on_bitmap_def ctx_stroke_def surface_def preview_primitive_def)

section \<open>The circle scenario\<close>





section \<open>Highlights and comments\<close>

text \<open>
  Claim C9. Without a selection, without a range or with a collapsed selection,
  \<open>handleHighlight\<close> changes nothing. When the range cannot be wrapped, it appends one
  warning to the console and clears the selection, and nothing else: the highlight map,
  the active highlight and the markers of the text are as before.
\<close>

theorem highlight_rejects_or_abandons:
  "(selection s = None \<longrightarrow> handleHighlight s c now = s)
   \<and> (selection s = Some sel \<and> (rangeCount sel = 0 \<or> isCollapsed sel) \<longrightarrow>
        handleHighlight s c now = s)
   \<and> (selection s = Some sel \<and> rangeCount sel \<noteq> 0 \<and> \<not> isCollapsed sel
        \<and> partially_selects_non_text sel \<longrightarrow>
        handleHighlight s c now
          = s\<lparr>console := console s @ [''Highlight failed: Selection spans multiple blocks''],
              selection := Some (removeAllRanges sel)\<rparr>
        \<and> highlights (handleHighlight s c now) = highlights s
        \<and> activeHighlightId (handleHighlight s c now) = activeHighlightId s
        \<and> marks (handleHighlight s c now) = marks s)"
  by (simp add: handleHighlight_def Let_def)

theorem highlight_rejects_or_abandons_witness:
  "handleHighlight (example_editor\<lparr>selection := None\<rparr>) ''#fef08a'' 1700000000000
     = example_editor\<lparr>selection := None\<rparr>
   \<and> handleHighlight (example_editor\<lparr>selection := Some collapsed_selection\<rparr>) ''#fef08a'' 1700000000000
     = example_editor\<lparr>selection := Some collapsed_selection\<rparr>
   \<and> handleHighlight (example_editor\<lparr>selection := Some wide_selection\<rparr>) ''#fef08a'' 1700000000000
     = example_editor\<lparr>console := [''Highlight failed: Selection spans multiple blocks''],
                       selection := Some (removeAllRanges wide_selection)\<rparr>
   \<and> highlights (handleHighlight (example_editor\<lparr>selection := Some wide_selection\<rparr>)
        ''#fef08a'' 1700000000000) = Map.empty
   \<and> activeHighlightId (handleHighlight (example_editor\<lparr>selection := Some wide_selection\<rparr>)
        ''#fef08a'' 1700000000000) = None"
  using highlight_rejects_or_abandons [where s = "example_editor\<lparr>selection := None\<rparr>"
      and c = "''#fef08a''" and now = 1700000000000 and sel = collapsed_selection]
    highlight_rejects_or_abandons [where s = "example_editor\<lparr>selection := Some collapsed_selection\<rparr>"
      and c = "''#fef08a''" and now = 1700000000000 and sel = collapsed_selection]
    highlight_rejects_or_abandons [where s = "example_editor\<lparr>selection := Some wide_selection\<rparr>"
      and c = "''#fef08a''" and now = 1700000000000 and sel = wide_selection]
  by (simp add: wide_selection_def collapsed_selection_def example_editor_def initial_editor_def
      example_page_def)

lemma addComment_noop:
  "activeHighlightId s = None \<or> activeHighlightId s = Some [] \<or> js_trim (newComment s) = [] \<Longrightarrow>
   addComment s n1 n2 = Inr s"
  by (cases "activeHighlightId s") (auto simp: addComment_def)

lemma addComment_appends:
  "activeHighlightId s = Some aid \<Longrightarrow> aid \<noteq> [] \<Longrightarrow> js_trim (newComment s) \<noteq> [] \<Longrightarrow>
   highlights s aid = Some h \<Longrightarrow>
   addComment s n1 n2 =
     Inr (s\<lparr>highlights := (highlights s)(aid \<mapsto> h\<lparr>comments := comments h @
              [\<lparr>comment_id = ''c_'' @ string_of_nat n1, comment_text = newComment s,
                author = ''Me'', createdAt = n2\<rparr>]\<rparr>),
            newComment := []\<rparr>)"
  by (simp add: addComment_def Let_def)

lemma addComment_raises:
  "activeHighlightId s = Some aid \<Longrightarrow> aid \<noteq> [] \<Longrightarrow> js_trim (newComment s) \<noteq> [] \<Longrightarrow>
   highlights s aid = None \<Longrightarrow> addComment s n1 n2 = Inl TypeError"
  by (simp add: addComment_def Let_def)

text \<open>
  Claim C10 fails on the code. A click on a marker whose id is not in the highlight map
  makes that id the active one; with a comment typed, \<open>addComment\<close> then raises
  instead of doing nothing.
\<close>

theorem addComment_on_unknown_highlight_raises:
  "activeHighlightId
     (run (initial_editor orphan_page False (Some example_canvas) (Some example_context))
        [EditorClick (Some ''hl_1''), SetNewComment ''check this'']) = Some ''hl_1''
   \<and> highlights
     (run (initial_editor orphan_page False (Some example_canvas) (Some example_context))
        [EditorClick (Some ''hl_1''), SetNewComment ''check this'']) ''hl_1'' = None
   \<and> addComment
     (run (initial_editor orphan_page False (Some example_canvas) (Some example_context))
        [EditorClick (Some ''hl_1''), SetNewComment ''check this''])
     1700000000000 1700000000001 = Inl TypeError"
  by (simp add: initial_editor_def orphan_page_def handleEditorClick_def addComment_def
      js_trim_def js_whitespace_def Let_def)

end
